theory Spec2Isabelle
  imports Main "HOL-Library.Finite_Map" "HOL-Library.Char_ord" "HOL-Library.List_Lexorder"
begin

section \<open>Values shared by both packages\<close>

text \<open>
  A Go \<open>map[string]T\<close> is a finite map \<open>(string, T) fmap\<close>: \<open>m[k]\<close> with the
  comma-ok form is \<open>fmlookup m k\<close>, \<open>delete(m, k)\<close> is \<open>fmdrop k m\<close>,
  \<open>m[k] = v\<close> is \<open>fmupd k v m\<close> and \<open>len(m) == 0\<close> is \<open>m = fmempty\<close>.
  A nil map and an empty map behave alike under these operations.

  The content of an unstructured object (\<open>map[string]interface{}\<close>, decoded JSON) is a
  tree of such maps.
\<close>

datatype jval =
    JNull
  | JBool bool
  | JNum int
  | JString string
  | JList "jval list"
  | JMap "(string, jval) fmap"

datatype unstructured = Unstructured (UnstructuredContent: "(string, jval) fmap")

text \<open>What a list call hands back: objects that may or may not be unstructured.\<close>

datatype runtime_object = UnstructuredObject unstructured | TypedObject string

text \<open>
  Errors are values. \<open>CollaboratorError\<close> is an error produced by an external call
  (discovery, lister, typed lookups, secret store); the other constructors are the
  errors the code itself builds, the \<open>fmt.Errorf\<close> wrappers keeping the wrapped error.
\<close>

datatype error =
    CollaboratorError string
  | KeyNotFound string
  | NotAMap string
  | NotAString string
  | UnexpectedGroupVersion string
  | ErrorCasting runtime_object
  | ErrorProcessingObject unstructured error
  | ErrorPreparingPV string error
  | ErrorPreparingService string string error
  | ErrorGettingMetadata string error
  | ErrorGettingSecretConfig error
  | InvalidBackupLocationType string

section \<open>Backup location: credentials merged from a secret\<close>

text \<open>\<open>strings.HasSuffix\<close> and \<open>strings.TrimSuffix\<close> of the Go standard library.\<close>

definition HasSuffix :: "string \<Rightarrow> string \<Rightarrow> bool" where
  "HasSuffix s suffix \<longleftrightarrow>
     length s \<ge> length suffix \<and> drop (length s - length suffix) s = suffix"

definition TrimSuffix :: "string \<Rightarrow> string \<Rightarrow> string" where
  "TrimSuffix s suffix =
     (if HasSuffix s suffix then take (length s - length suffix) s else s)"

text \<open>The one-character string \<open>"\n"\<close>.\<close>

definition newline :: string where
  "newline = [CHR 0x0A]"

record S3Config =
  Endpoint :: string
  AccessKeyID :: string
  SecretAccessKey :: string
  Region :: string

record AzureConfig =
  StorageAccountName :: string
  StorageAccountKey :: string

record GoogleConfig =
  ProjectID :: string
  AccountKey :: string

text \<open>The three config pointers are options: \<open>nil\<close> is \<open>None\<close>.\<close>

record BackupLocationItem =
  Type :: string
  Path :: string
  S3Config :: "S3Config option"
  AzureConfig :: "AzureConfig option"
  GoogleConfig :: "GoogleConfig option"
  SecretConfig :: string

record BackupLocation =
  Namespace :: string
  Location :: BackupLocationItem

record Secret =
  Data :: "(string, string) fmap"

text \<open>
  \<open>client.CoreV1().Secrets(namespace).Get(name, ...)\<close>: the secret store, a function
  of the namespace and the secret's name.
\<close>

type_synonym secret_client = "string \<Rightarrow> string \<Rightarrow> error + Secret"

definition BackupLocationS3 :: string where "BackupLocationS3 = ''s3''"
definition BackupLocationAzure :: string where "BackupLocationAzure = ''azure''"
definition BackupLocationGoogle :: string where "BackupLocationGoogle = ''google''"

text \<open>
  The merge functions mutate the receiver and return an error; the model returns the
  receiver's new value with the error (\<open>None\<close> is \<open>nil\<close>). A nil config pointer is first
  replaced by a fresh config (for S3 with the default endpoint and region), and that
  replacement stays when the secret lookup then fails.
\<close>

definition getMergedS3Config :: "secret_client \<Rightarrow> BackupLocation \<Rightarrow> BackupLocation \<times> error option" where
  "getMergedS3Config client bl =
    (let c0 = (case S3Config (Location bl) of
                 None \<Rightarrow> \<lparr>Endpoint = ''s3.amazonaws.com'', AccessKeyID = [],
                           SecretAccessKey = [], Region = ''us-east-1''\<rparr>
               | Some c \<Rightarrow> c);
         bl0 = bl\<lparr>Location := (Location bl)\<lparr>S3Config := Some c0\<rparr>\<rparr>
     in if SecretConfig (Location bl) \<noteq> [] then
          (case client (Namespace bl) (SecretConfig (Location bl)) of
             Inl err \<Rightarrow> (bl0, Some (ErrorGettingSecretConfig err))
           | Inr secretConfig \<Rightarrow>
               (let c1 = (case fmlookup (Data secretConfig) ''endpoint'' of
                            Some v \<Rightarrow> c0\<lparr>Endpoint := TrimSuffix v newline\<rparr>
                          | None \<Rightarrow> c0);
                    c2 = (case fmlookup (Data secretConfig) ''accessKeyID'' of
                            Some v \<Rightarrow> c1\<lparr>AccessKeyID := TrimSuffix v newline\<rparr>
                          | None \<Rightarrow> c1);
                    c3 = (case fmlookup (Data secretConfig) ''secretAccessKey'' of
                            Some v \<Rightarrow> c2\<lparr>SecretAccessKey := TrimSuffix v newline\<rparr>
                          | None \<Rightarrow> c2);
                    c4 = (case fmlookup (Data secretConfig) ''region'' of
                            Some v \<Rightarrow> c3\<lparr>SecretAccessKey := TrimSuffix v newline\<rparr>
                          | None \<Rightarrow> c3)
                in (bl\<lparr>Location := (Location bl)\<lparr>S3Config := Some c4\<rparr>\<rparr>, None)))
        else (bl0, None))"

definition getMergedAzureConfig :: "secret_client \<Rightarrow> BackupLocation \<Rightarrow> BackupLocation \<times> error option" where
  "getMergedAzureConfig client bl =
    (let c0 = (case AzureConfig (Location bl) of
                 None \<Rightarrow> \<lparr>StorageAccountName = [], StorageAccountKey = []\<rparr>
               | Some c \<Rightarrow> c);
         bl0 = bl\<lparr>Location := (Location bl)\<lparr>AzureConfig := Some c0\<rparr>\<rparr>
     in if SecretConfig (Location bl) \<noteq> [] then
          (case client (Namespace bl) (SecretConfig (Location bl)) of
             Inl err \<Rightarrow> (bl0, Some (ErrorGettingSecretConfig err))
           | Inr secretConfig \<Rightarrow>
               (let c1 = (case fmlookup (Data secretConfig) ''storageAccountName'' of
                            Some v \<Rightarrow> c0\<lparr>StorageAccountName := TrimSuffix v newline\<rparr>
                          | None \<Rightarrow> c0);
                    c2 = (case fmlookup (Data secretConfig) ''storageAccountKey'' of
                            Some v \<Rightarrow> c1\<lparr>StorageAccountKey := TrimSuffix v newline\<rparr>
                          | None \<Rightarrow> c1)
                in (bl\<lparr>Location := (Location bl)\<lparr>AzureConfig := Some c2\<rparr>\<rparr>, None)))
        else (bl0, None))"

definition getMergedGoogleConfig :: "secret_client \<Rightarrow> BackupLocation \<Rightarrow> BackupLocation \<times> error option" where
  "getMergedGoogleConfig client bl =
    (let c0 = (case GoogleConfig (Location bl) of
                 None \<Rightarrow> \<lparr>ProjectID = [], AccountKey = []\<rparr>
               | Some c \<Rightarrow> c);
         bl0 = bl\<lparr>Location := (Location bl)\<lparr>GoogleConfig := Some c0\<rparr>\<rparr>
     in if SecretConfig (Location bl) \<noteq> [] then
          (case client (Namespace bl) (SecretConfig (Location bl)) of
             Inl err \<Rightarrow> (bl0, Some (ErrorGettingSecretConfig err))
           | Inr secretConfig \<Rightarrow>
               (let c1 = (case fmlookup (Data secretConfig) ''projectID'' of
                            Some v \<Rightarrow> c0\<lparr>ProjectID := TrimSuffix v newline\<rparr>
                          | None \<Rightarrow> c0);
                    c2 = (case fmlookup (Data secretConfig) ''accountKey'' of
                            Some v \<Rightarrow> c1\<lparr>AccountKey := TrimSuffix v newline\<rparr>
                          | None \<Rightarrow> c1)
                in (bl\<lparr>Location := (Location bl)\<lparr>GoogleConfig := Some c2\<rparr>\<rparr>, None)))
        else (bl0, None))"

definition UpadteFromSecret :: "secret_client \<Rightarrow> BackupLocation \<Rightarrow> BackupLocation \<times> error option" where
  "UpadteFromSecret client bl =
    (if SecretConfig (Location bl) = [] then (bl, None)
     else if Type (Location bl) = BackupLocationS3 then getMergedS3Config client bl
     else if Type (Location bl) = BackupLocationAzure then getMergedAzureConfig client bl
     else if Type (Location bl) = BackupLocationGoogle then getMergedGoogleConfig client bl
     else (bl, Some (InvalidBackupLocationType (Type (Location bl)))))"

text \<open>Concrete inputs used to exercise the theorems below.\<close>

definition example_secret_client :: secret_client where
  "example_secret_client ns name =
     (if ns = ''backup'' \<and> name = ''s3-creds''
      then Inr \<lparr>Data = fmap_of_list
                  [(''accessKeyID'', ''AKIA''),
                   (''secretAccessKey'', ''topsecret'' @ newline),
                   (''region'', ''eu-west-1'' @ newline)]\<rparr>
      else Inl (CollaboratorError ''secret not found''))"

definition example_s3_location :: BackupLocation where
  "example_s3_location =
     \<lparr>Namespace = ''backup'',
      Location = \<lparr>Type = ''s3'', Path = ''bucket'',
                  S3Config = Some \<lparr>Endpoint = ''minio.local'', AccessKeyID = [],
                                   SecretAccessKey = [], Region = ''us-west-2''\<rparr>,
                  AzureConfig = None, GoogleConfig = None,
                  SecretConfig = ''s3-creds''\<rparr>\<rparr>"

definition example_inline_location :: BackupLocation where
  "example_inline_location =
     \<lparr>Namespace = ''backup'',
      Location = \<lparr>Type = ''tape'', Path = ''bucket'',
                  S3Config = None, AzureConfig = None, GoogleConfig = None,
                  SecretConfig = []\<rparr>\<rparr>"

section \<open>Resource collector: generic objects and their accessors\<close>

text \<open>
  The collector works on objects of the packages it imports (the unstructured objects,
  \<open>schema\<close> and \<open>labels\<close> of the Kubernetes API machinery, and the \<open>collections\<close>
  helpers). Their sources are not part of the repository; this section models the
  functions the collector calls after their documented behaviour.

  \<open>strings.Split(path, ".")\<close> for a one-character separator, and \<open>strings.Join\<close>.
\<close>

fun Split :: "string \<Rightarrow> char \<Rightarrow> string list" where
  "Split [] sep = [[]]"
| "Split (c # cs) sep =
     (if c = sep then [] # Split cs sep
      else (case Split cs sep of [] \<Rightarrow> [[c]] | p # ps \<Rightarrow> (c # p) # ps))"

fun Join :: "string list \<Rightarrow> string \<Rightarrow> string" where
  "Join [] sep = []"
| "Join [x] sep = x"
| "Join (x # y # ys) sep = x @ sep @ Join (y # ys) sep"

text \<open>
  The path helpers of the \<open>collections\<close> package the collector calls: \<open>GetValue\<close>
  walks a dot-separated path through nested maps and fails when a key is absent or an
  inner value is not a map; \<open>GetString\<close> and \<open>GetMap\<close> also fail when the value found
  has the wrong type (the specification's accessor helpers, which fail explicitly when a
  path is absent or mistyped). \<open>GetValueAt\<close> is \<open>GetValue\<close> on the split path. A nil
  root map is not distinguished from an empty one: both give the error of a missing key.
\<close>

fun GetValueAt :: "(string, jval) fmap \<Rightarrow> string list \<Rightarrow> error + jval" where
  "GetValueAt root [] = Inl (KeyNotFound [])"
| "GetValueAt root (key # rest) =
     (case fmlookup root key of
        None \<Rightarrow> Inl (KeyNotFound key)
      | Some obj \<Rightarrow>
          if rest = [] then Inr obj
          else (case obj of
                  JMap subMap \<Rightarrow> GetValueAt subMap rest
                | _ \<Rightarrow> Inl (NotAMap key)))"

definition GetValue :: "(string, jval) fmap \<Rightarrow> string \<Rightarrow> error + jval" where
  "GetValue root path = GetValueAt root (Split path (CHR ''.''))"

definition GetString :: "(string, jval) fmap \<Rightarrow> string \<Rightarrow> error + string" where
  "GetString root path =
     (case GetValue root path of
        Inl err \<Rightarrow> Inl err
      | Inr (JString str) \<Rightarrow> Inr str
      | Inr _ \<Rightarrow> Inl (NotAString path))"

definition GetMap :: "(string, jval) fmap \<Rightarrow> string \<Rightarrow> error + (string, jval) fmap" where
  "GetMap root path =
     (case GetValue root path of
        Inl err \<Rightarrow> Inl err
      | Inr (JMap ret) \<Rightarrow> Inr ret
      | Inr _ \<Rightarrow> Inl (NotAMap path))"

text \<open>
  The metadata accessors of an unstructured object read nested string fields of its
  content and give the empty string when the field is absent or not a string.
\<close>

fun NestedField :: "(string, jval) fmap \<Rightarrow> string list \<Rightarrow> jval option" where
  "NestedField obj [] = Some (JMap obj)"
| "NestedField obj (field # rest) =
     (case fmlookup obj field of
        None \<Rightarrow> None
      | Some val \<Rightarrow>
          if rest = [] then Some val
          else (case val of JMap m \<Rightarrow> NestedField m rest | _ \<Rightarrow> None))"

definition getNestedString :: "(string, jval) fmap \<Rightarrow> string list \<Rightarrow> string" where
  "getNestedString obj path =
     (case NestedField obj path of Some (JString s) \<Rightarrow> s | _ \<Rightarrow> [])"

definition GetUID :: "unstructured \<Rightarrow> string" where
  "GetUID u = getNestedString (UnstructuredContent u) [''metadata'', ''uid'']"

definition GetName :: "unstructured \<Rightarrow> string" where
  "GetName u = getNestedString (UnstructuredContent u) [''metadata'', ''name'']"

definition GetNamespace :: "unstructured \<Rightarrow> string" where
  "GetNamespace u = getNestedString (UnstructuredContent u) [''metadata'', ''namespace'']"

definition GetAPIVersion :: "unstructured \<Rightarrow> string" where
  "GetAPIVersion u = getNestedString (UnstructuredContent u) [''apiVersion'']"

definition GetKind :: "unstructured \<Rightarrow> string" where
  "GetKind u = getNestedString (UnstructuredContent u) [''kind'']"

record schema_GroupVersion =
  gvGroup :: string
  gvVersion :: string

text \<open>
  \<open>schema.ParseGroupVersion\<close>: the empty string and \<open>"/"\<close> give the empty group and
  version, a string without slash is a version of the empty group, one slash separates
  group and version, more slashes are an error.
\<close>

definition ParseGroupVersion :: "string \<Rightarrow> error + schema_GroupVersion" where
  "ParseGroupVersion gv =
     (if gv = [] \<or> gv = ''/'' then Inr \<lparr>gvGroup = [], gvVersion = []\<rparr>
      else if count_list gv (CHR ''/'') = 0 then Inr \<lparr>gvGroup = [], gvVersion = gv\<rparr>
      else if count_list gv (CHR ''/'') = 1
        then Inr \<lparr>gvGroup = takeWhile (\<lambda>c. c \<noteq> CHR ''/'') gv,
                  gvVersion = tl (dropWhile (\<lambda>c. c \<noteq> CHR ''/'') gv)\<rparr>
      else Inl (UnexpectedGroupVersion gv))"

text \<open>
  The kind both passes dispatch on, \<open>GetObjectKind().GroupVersionKind().Kind\<close> (what the
  type accessor's \<open>GetKind\<close> returns as well): the object's \<open>kind\<close> field, or the empty
  string when its \<open>apiVersion\<close> does not parse.
\<close>

definition ObjectKind :: "unstructured \<Rightarrow> string" where
  "ObjectKind u =
     (case ParseGroupVersion (GetAPIVersion u) of
        Inl err \<Rightarrow> []
      | Inr gv \<Rightarrow> GetKind u)"

section \<open>Resource collector: collaborators\<close>

record APIResource =
  Name :: string
  Namespaced :: bool
  Group :: string
  Kind :: string

record APIResourceList =
  GroupVersion :: string
  APIResources :: "APIResource list"

record PersistentVolumeClaim =
  pvc_Name :: string
  pvc_Namespace :: string
  pvc_Labels :: "(string, string) fmap"
  pvc_Phase :: string

record Subject =
  subject_Kind :: string
  subject_Name :: string
  subject_Namespace :: string

record ClusterRoleBinding =
  crb_Name :: string
  crb_Subjects :: "Subject list"
  crb_RoleRef_Name :: string

definition ClaimBound :: string where
  "ClaimBound = ''Bound''"

text \<open>
  One list call of the dynamic client: the group/version and resource name select the
  client, the namespace is present for a namespaced client only, and \<open>LabelSelector\<close> is
  the field of the list options.
\<close>

record list_request =
  reqGroupVersion :: schema_GroupVersion
  reqResource :: string
  reqNamespace :: "string option"
  LabelSelector :: string

text \<open>
  The collector's external collaborators, as they answer during one call:
  \<open>Refresh\<close> is the result of the discovery refresh (\<open>None\<close> is success) and
  \<open>Resources\<close> what discovery lists after it; \<open>ListObjects\<close> is the dynamic client's
  \<open>List\<close> followed by \<open>meta.ExtractList\<close>, either of which may fail; the typed lookups of
  the scheduler client; and the volume driver's \<open>OwnsPVC\<close>.
\<close>

record collaborators =
  Refresh :: "error option"
  Resources :: "APIResourceList list"
  ListObjects :: "list_request \<Rightarrow> error + runtime_object list"
  GetPersistentVolumeClaim :: "string \<Rightarrow> string \<Rightarrow> error + PersistentVolumeClaim"
  GetClusterRoleBinding :: "string \<Rightarrow> error + ClusterRoleBinding"
  ListClusterRoleBindings :: "error + ClusterRoleBinding list"
  OwnsPVC :: "PersistentVolumeClaim \<Rightarrow> bool"

text \<open>
  \<open>labels.Set(m).String()\<close>: the \<open>key=value\<close> pairs, sorted, joined by commas.
  \<open>labels.AreLabelsInWhiteList(labels, whitelist)\<close>: true for an empty whitelist,
  otherwise every pair of \<open>labels\<close> must be in \<open>whitelist\<close>.
\<close>

definition labelsString :: "(string, string) fmap \<Rightarrow> string" where
  "labelsString ls =
     Join (sort (map (\<lambda>(key, val). key @ ''='' @ val) (sorted_list_of_fmap ls))) '',''"

definition AreLabelsInWhiteList :: "(string, string) fmap \<Rightarrow> (string, string) fmap \<Rightarrow> bool" where
  "AreLabelsInWhiteList labels whitelist =
     (if whitelist = fmempty then True
      else fmpred (\<lambda>k v. fmlookup whitelist k = Some v) labels)"

section \<open>Resource collector: collection\<close>

definition resourceToBeCollected :: "APIResource \<Rightarrow> bool" where
  "resourceToBeCollected resource =
     (if Group resource = ''extensions'' \<and> Kind resource = ''Deployment'' then False
      else Kind resource \<in> set [''PersistentVolumeClaim'', ''PersistentVolume'',
             ''Deployment'', ''StatefulSet'', ''ConfigMap'', ''Service'', ''Secret'',
             ''DaemonSet'', ''ServiceAccount'', ''ClusterRole'', ''ClusterRoleBinding''])"

text \<open>
  The inclusion predicate. \<open>resourceMap\<close> holds the uids collected so far; an object
  whose uid is a key of it is skipped before any kind-specific rule runs. The two loops
  over subjects return true at the first subject of the requested namespace.
  \<open>meta.Accessor\<close> and \<open>meta.TypeAccessor\<close> do not fail on an unstructured object, so
  their error returns have no branch here.
\<close>

definition objectToBeCollected ::
  "collaborators \<Rightarrow> (string, string) fmap \<Rightarrow> (string, bool) fmap \<Rightarrow> unstructured \<Rightarrow> string
     \<Rightarrow> error + bool" where
  "objectToBeCollected r labelSelectors resourceMap object namespace =
    (if fmlookup resourceMap (GetUID object) \<noteq> None then Inr False
     else if ObjectKind object = ''Service'' then
       (if GetName object = ''kubernetes'' then Inr False else Inr True)
     else if ObjectKind object = ''PersistentVolumeClaim'' then
       (case GetPersistentVolumeClaim r (GetName object) namespace of
          Inl err \<Rightarrow> Inl err
        | Inr pvc \<Rightarrow>
            if pvc_Phase pvc \<noteq> ClaimBound then Inr False
            else if \<not> OwnsPVC r pvc then Inr False
            else Inr True)
     else if ObjectKind object = ''PersistentVolume'' then
       (case GetString (UnstructuredContent object) ''status.phase'' of
          Inl err \<Rightarrow> Inl err
        | Inr phase \<Rightarrow>
            if phase \<noteq> ClaimBound then Inr False
            else
              (case GetString (UnstructuredContent object) ''spec.claimRef.name'' of
                 Inl err \<Rightarrow> Inl err
               | Inr pvcName \<Rightarrow>
                   if pvcName = [] then Inr False
                   else
                     (case GetString (UnstructuredContent object) ''spec.claimRef.namespace'' of
                        Inl err \<Rightarrow> Inl err
                      | Inr pvcNamespace \<Rightarrow>
                          if pvcNamespace \<noteq> namespace then Inr False
                          else
                            (case GetPersistentVolumeClaim r pvcName pvcNamespace of
                               Inl err \<Rightarrow> Inl err
                             | Inr pvc \<Rightarrow>
                                 if \<not> OwnsPVC r pvc then Inr False
                                 else if pvc_Labels pvc = fmempty \<and> labelSelectors \<noteq> fmempty
                                   then Inr False
                                 else if \<not> AreLabelsInWhiteList labelSelectors (pvc_Labels pvc)
                                   then Inr False
                                 else Inr True))))
     else if ObjectKind object = ''ClusterRoleBinding'' then
       (case GetClusterRoleBinding r (GetName object) of
          Inl err \<Rightarrow> Inl err
        | Inr crb \<Rightarrow>
            Inr (list_ex (\<lambda>subject. subject_Namespace subject = namespace) (crb_Subjects crb)))
     else if ObjectKind object = ''ClusterRole'' then
       (case ListClusterRoleBindings r of
          Inl err \<Rightarrow> Inl err
        | Inr crbs \<Rightarrow>
            Inr (list_ex (\<lambda>crb. crb_RoleRef_Name crb = GetName object
                              \<and> list_ex (\<lambda>subject. subject_Namespace subject = namespace)
                                    (crb_Subjects crb)) crbs))
     else if ObjectKind object = ''ServiceAccount'' then
       (if GetName object = ''default'' then Inr False else Inr True)
     else Inr True)"

text \<open>
  The list call of the innermost iteration: a cluster-scoped resource is listed without
  namespace, and the selector string is left empty for the kind \<open>PersistentVolume\<close>.
\<close>

definition listRequest ::
  "schema_GroupVersion \<Rightarrow> APIResource \<Rightarrow> string \<Rightarrow> (string, string) fmap \<Rightarrow> list_request" where
  "listRequest groupVersion resource ns labelSelectors =
     \<lparr>reqGroupVersion = groupVersion,
      reqResource = Name resource,
      reqNamespace = (if \<not> Namespaced resource then None else Some ns),
      LabelSelector = (if Kind resource \<noteq> ''PersistentVolume''
                       then labelsString labelSelectors else [])\<rparr>"

text \<open>
  The four nested loops of \<open>GetResources\<close>, innermost first. The loop state is the pair
  of \<open>resourceMap\<close> and \<open>allObjects\<close>; every \<open>return nil, err\<close> is \<open>Inl err\<close> and ends
  all loops. \<open>resourceMap\<close> is created inside the loop over the groups, after the
  \<open>extensions\<close> group has been skipped, so each group starts with an empty one.
\<close>

fun GetResources_objects ::
  "collaborators \<Rightarrow> (string, string) fmap \<Rightarrow> string \<Rightarrow> runtime_object list
     \<Rightarrow> (string, bool) fmap \<times> unstructured list
     \<Rightarrow> error + (string, bool) fmap \<times> unstructured list" where
  "GetResources_objects r labelSelectors ns [] st = Inr st"
| "GetResources_objects r labelSelectors ns (ob # objects) (resourceMap, allObjects) =
     (case ob of
        TypedObject t \<Rightarrow> Inl (ErrorCasting ob)
      | UnstructuredObject runtimeObject \<Rightarrow>
          (case objectToBeCollected r labelSelectors resourceMap runtimeObject ns of
             Inl err \<Rightarrow> Inl (ErrorProcessingObject runtimeObject err)
           | Inr collect \<Rightarrow>
               if \<not> collect
               then GetResources_objects r labelSelectors ns objects (resourceMap, allObjects)
               else GetResources_objects r labelSelectors ns objects
                      (fmupd (GetUID runtimeObject) True resourceMap,
                       allObjects @ [runtimeObject])))"

fun GetResources_namespaces ::
  "collaborators \<Rightarrow> (string, string) fmap \<Rightarrow> schema_GroupVersion \<Rightarrow> APIResource
     \<Rightarrow> string list \<Rightarrow> (string, bool) fmap \<times> unstructured list
     \<Rightarrow> error + (string, bool) fmap \<times> unstructured list" where
  "GetResources_namespaces r labelSelectors groupVersion resource [] st = Inr st"
| "GetResources_namespaces r labelSelectors groupVersion resource (ns # namespaces) st =
     (case ListObjects r (listRequest groupVersion resource ns labelSelectors) of
        Inl err \<Rightarrow> Inl err
      | Inr objects \<Rightarrow>
          (case GetResources_objects r labelSelectors ns objects st of
             Inl err \<Rightarrow> Inl err
           | Inr st' \<Rightarrow>
               GetResources_namespaces r labelSelectors groupVersion resource namespaces st'))"

fun GetResources_resources ::
  "collaborators \<Rightarrow> (string, string) fmap \<Rightarrow> string list \<Rightarrow> schema_GroupVersion
     \<Rightarrow> APIResource list \<Rightarrow> (string, bool) fmap \<times> unstructured list
     \<Rightarrow> error + (string, bool) fmap \<times> unstructured list" where
  "GetResources_resources r labelSelectors namespaces groupVersion [] st = Inr st"
| "GetResources_resources r labelSelectors namespaces groupVersion (resource # resources) st =
     (if \<not> resourceToBeCollected resource
      then GetResources_resources r labelSelectors namespaces groupVersion resources st
      else (case GetResources_namespaces r labelSelectors groupVersion resource namespaces st of
              Inl err \<Rightarrow> Inl err
            | Inr st' \<Rightarrow>
                GetResources_resources r labelSelectors namespaces groupVersion resources st'))"

text \<open>One iteration of the loop over the groups, from the objects accumulated so far.\<close>

definition GetResources_group ::
  "collaborators \<Rightarrow> (string, string) fmap \<Rightarrow> string list \<Rightarrow> APIResourceList
     \<Rightarrow> unstructured list \<Rightarrow> error + unstructured list" where
  "GetResources_group r labelSelectors namespaces apiGroup allObjects =
     (case ParseGroupVersion (GroupVersion apiGroup) of
        Inl err \<Rightarrow> Inl err
      | Inr groupVersion \<Rightarrow>
          if gvGroup groupVersion = ''extensions'' then Inr allObjects
          else (case GetResources_resources r labelSelectors namespaces groupVersion
                       (APIResources apiGroup) (fmempty, allObjects) of
                  Inl err \<Rightarrow> Inl err
                | Inr (resourceMap, allObjects') \<Rightarrow> Inr allObjects'))"

fun GetResources_groups ::
  "collaborators \<Rightarrow> (string, string) fmap \<Rightarrow> string list \<Rightarrow> APIResourceList list
     \<Rightarrow> unstructured list \<Rightarrow> error + unstructured list" where
  "GetResources_groups r labelSelectors namespaces [] allObjects = Inr allObjects"
| "GetResources_groups r labelSelectors namespaces (apiGroup # groups) allObjects =
     (case GetResources_group r labelSelectors namespaces apiGroup allObjects of
        Inl err \<Rightarrow> Inl err
      | Inr allObjects' \<Rightarrow> GetResources_groups r labelSelectors namespaces groups allObjects')"

definition GetResources ::
  "collaborators \<Rightarrow> string list \<Rightarrow> (string, string) fmap \<Rightarrow> error + unstructured list" where
  "GetResources r namespaces labelSelectors =
     (case Refresh r of
        Some err \<Rightarrow> Inl err
      | None \<Rightarrow> GetResources_groups r labelSelectors namespaces (Resources r) [])"

section \<open>Resource collector: preparation of the collected objects\<close>

text \<open>
  The preparation functions change the objects in place: \<open>delete\<close> on the map that
  \<open>GetMap\<close> returned changes the object's own nested map. The model writes the changed
  map back under the key it was read from.
\<close>

definition preparePVResource :: "unstructured \<Rightarrow> error + unstructured" where
  "preparePVResource object =
     (case GetMap (UnstructuredContent object) ''spec'' of
        Inl err \<Rightarrow> Inl err
      | Inr spec \<Rightarrow>
          Inr (Unstructured
                 (fmupd ''spec'' (JMap (fmdrop ''storageClassName'' (fmdrop ''claimRef'' spec)))
                    (UnstructuredContent object))))"

definition prepareServiceResource :: "unstructured \<Rightarrow> error + unstructured" where
  "prepareServiceResource object =
     (case GetMap (UnstructuredContent object) ''spec'' of
        Inl err \<Rightarrow> Inl err
      | Inr spec \<Rightarrow>
          (case GetString spec ''clusterIP'' of
             Inr ip \<Rightarrow>
               if ip \<noteq> ''None''
               then Inr (Unstructured
                           (fmupd ''spec'' (JMap (fmdrop ''clusterIP'' spec))
                              (UnstructuredContent object)))
               else Inr object
           | Inl err \<Rightarrow> Inr object))"

text \<open>
  The body of the loop of \<open>prepareResources\<close> on one object: the object as the body
  leaves it, and the error it returns with, if any. The status is deleted before
  anything can fail, so it stays deleted in an object whose preparation fails.
\<close>

definition prepareResource :: "unstructured \<Rightarrow> unstructured \<times> error option" where
  "prepareResource ob =
     (let o1 = Unstructured (fmdrop ''status'' (UnstructuredContent ob));
          prepared =
            (if ObjectKind o1 = ''PersistentVolume'' then
               (case preparePVResource o1 of
                  Inl err \<Rightarrow> Inl (ErrorPreparingPV (GetName o1) err)
                | Inr updatedObject \<Rightarrow> Inr updatedObject)
             else if ObjectKind o1 = ''Service'' then
               (case prepareServiceResource o1 of
                  Inl err \<Rightarrow> Inl (ErrorPreparingService (GetNamespace o1) (GetName o1) err)
                | Inr updatedObject \<Rightarrow> Inr updatedObject)
             else Inr o1)
      in case prepared of
           Inl err \<Rightarrow> (o1, Some err)
         | Inr o2 \<Rightarrow>
             (case GetMap (UnstructuredContent o2) ''metadata'' of
                Inl err \<Rightarrow> (o2, Some (ErrorGettingMetadata (GetName o2) err))
              | Inr metadataMap \<Rightarrow>
                  (Unstructured
                     (fmupd ''metadata''
                        (JMap (fmfilter (\<lambda>key. key \<in> set [''name'', ''namespace'',
                                                   ''labels'', ''annotations'']) metadataMap))
                        (UnstructuredContent o2)),
                   None)))"

text \<open>
  \<open>prepareResources\<close> returns at the first error; the objects after the failing one are
  left as they were. The result is the objects after the call, and the error.
\<close>

fun prepareResources :: "unstructured list \<Rightarrow> unstructured list \<times> error option" where
  "prepareResources [] = ([], None)"
| "prepareResources (ob # objects) =
     (case prepareResource ob of
        (ob', Some err) \<Rightarrow> (ob' # objects, Some err)
      | (ob', None) \<Rightarrow>
          (case prepareResources objects of
             (objects', result) \<Rightarrow> (ob' # objects', result)))"

section \<open>Resource collector: example cluster\<close>

text \<open>
  A small cluster used to exercise the theorems: a bound claim \<open>data-pvc\<close> in
  namespace \<open>ns1\<close> with labels \<open>{app: db}\<close>, the volume bound to it, a cluster role
  binding with subjects in \<open>ns1\<close> and \<open>ns3\<close>, two services, and a volume whose
  phase is \<open>Bound\<close> although its spec has no claim reference.
\<close>

definition example_pvc :: PersistentVolumeClaim where
  "example_pvc = \<lparr>pvc_Name = ''data-pvc'', pvc_Namespace = ''ns1'',
                   pvc_Labels = fmap_of_list [(''app'', ''db'')], pvc_Phase = ''Bound''\<rparr>"

definition example_crb :: ClusterRoleBinding where
  "example_crb = \<lparr>crb_Name = ''admin-binding'',
      crb_Subjects = [\<lparr>subject_Kind = ''ServiceAccount'', subject_Name = ''sa'', subject_Namespace = ''ns1''\<rparr>,
                      \<lparr>subject_Kind = ''ServiceAccount'', subject_Name = ''sa'', subject_Namespace = ''ns3''\<rparr>],
      crb_RoleRef_Name = ''admin''\<rparr>"

definition example_pvc_object :: unstructured where
  "example_pvc_object = Unstructured (fmap_of_list
     [(''kind'', JString ''PersistentVolumeClaim''), (''apiVersion'', JString ''v1''),
      (''metadata'', JMap (fmap_of_list
         [(''name'', JString ''data-pvc''), (''namespace'', JString ''ns1''),
          (''uid'', JString ''uid-pvc''),
          (''labels'', JMap (fmap_of_list [(''app'', JString ''db'')]))])),
      (''status'', JMap (fmap_of_list [(''phase'', JString ''Bound'')]))])"

definition example_pv_object :: unstructured where
  "example_pv_object = Unstructured (fmap_of_list
     [(''kind'', JString ''PersistentVolume''), (''apiVersion'', JString ''v1''),
      (''metadata'', JMap (fmap_of_list
         [(''name'', JString ''pv-1''), (''uid'', JString ''uid-pv''),
          (''resourceVersion'', JString ''42'')])),
      (''spec'', JMap (fmap_of_list
         [(''claimRef'', JMap (fmap_of_list
             [(''name'', JString ''data-pvc''), (''namespace'', JString ''ns1'')])),
          (''storageClassName'', JString ''fast'')])),
      (''status'', JMap (fmap_of_list [(''phase'', JString ''Bound'')]))])"

definition example_crb_object :: unstructured where
  "example_crb_object = Unstructured (fmap_of_list
     [(''kind'', JString ''ClusterRoleBinding''),
      (''apiVersion'', JString ''rbac.authorization.k8s.io/v1''),
      (''metadata'', JMap (fmap_of_list
         [(''name'', JString ''admin-binding''), (''uid'', JString ''uid-crb'')]))])"

definition example_service :: unstructured where
  "example_service = Unstructured (fmap_of_list
     [(''kind'', JString ''Service''), (''apiVersion'', JString ''v1''),
      (''metadata'', JMap (fmap_of_list
         [(''name'', JString ''web''), (''namespace'', JString ''ns1''),
          (''uid'', JString ''uid-svc''), (''resourceVersion'', JString ''7''),
          (''labels'', JMap (fmap_of_list [(''app'', JString ''db'')]))])),
      (''spec'', JMap (fmap_of_list [(''clusterIP'', JString ''10.0.0.7'')])),
      (''status'', JMap (fmap_of_list [(''loadBalancer'', JMap fmempty)]))])"

definition example_headless_service :: unstructured where
  "example_headless_service = Unstructured (fmap_of_list
     [(''kind'', JString ''Service''), (''apiVersion'', JString ''v1''),
      (''metadata'', JMap (fmap_of_list
         [(''name'', JString ''db''), (''namespace'', JString ''ns1''),
          (''uid'', JString ''uid-headless'')])),
      (''spec'', JMap (fmap_of_list [(''clusterIP'', JString ''None'')]))])"

definition example_unclaimed_pv :: unstructured where
  "example_unclaimed_pv = Unstructured (fmap_of_list
     [(''kind'', JString ''PersistentVolume''), (''apiVersion'', JString ''v1''),
      (''metadata'', JMap (fmap_of_list
         [(''name'', JString ''pv-2''), (''uid'', JString ''uid-pv-2'')])),
      (''spec'', JMap (fmap_of_list [(''storageClassName'', JString ''fast'')])),
      (''status'', JMap (fmap_of_list [(''phase'', JString ''Bound'')]))])"

definition example_cluster :: collaborators where
  "example_cluster =
     \<lparr>Refresh = None,
      Resources =
        [\<lparr>GroupVersion = ''v1'',
          APIResources =
            [\<lparr>Name = ''persistentvolumeclaims'', Namespaced = True, Group = [],
              Kind = ''PersistentVolumeClaim''\<rparr>,
             \<lparr>Name = ''persistentvolumes'', Namespaced = False, Group = [],
              Kind = ''PersistentVolume''\<rparr>,
             \<lparr>Name = ''pods'', Namespaced = True, Group = [], Kind = ''Pod''\<rparr>,
             \<lparr>Name = ''services'', Namespaced = True, Group = [], Kind = ''Service''\<rparr>]\<rparr>,
         \<lparr>GroupVersion = ''extensions/v1beta1'',
          APIResources =
            [\<lparr>Name = ''daemonsets'', Namespaced = True, Group = [], Kind = ''DaemonSet''\<rparr>]\<rparr>,
         \<lparr>GroupVersion = ''rbac.authorization.k8s.io/v1'',
          APIResources =
            [\<lparr>Name = ''clusterrolebindings'', Namespaced = False, Group = [],
              Kind = ''ClusterRoleBinding''\<rparr>]\<rparr>],
      ListObjects = (\<lambda>req.
         if reqResource req = ''persistentvolumeclaims'' \<and> reqNamespace req = Some ''ns1''
              \<and> LabelSelector req \<in> set [[], ''app=db'']
           then Inr [UnstructuredObject example_pvc_object]
         else if reqResource req = ''persistentvolumes'' \<and> LabelSelector req = []
           then Inr [UnstructuredObject example_pv_object]
         else if reqResource req = ''services'' \<and> reqNamespace req = Some ''ns1''
              \<and> LabelSelector req \<in> set [[], ''app=db'']
           then Inr [UnstructuredObject example_service]
         else if reqResource req = ''clusterrolebindings'' \<and> LabelSelector req = []
           then Inr [UnstructuredObject example_crb_object]
         else if reqResource req = ''daemonsets''
           then Inl (CollaboratorError ''the server could not find the requested resource'')
         else Inr []),
      GetPersistentVolumeClaim = (\<lambda>name ns.
         if name = ''data-pvc'' \<and> ns = ''ns1'' then Inr example_pvc
         else Inl (CollaboratorError ''claim not found'')),
      GetClusterRoleBinding = (\<lambda>name.
         if name = ''admin-binding'' then Inr example_crb
         else Inl (CollaboratorError ''binding not found'')),
      ListClusterRoleBindings = Inr [example_crb],
      OwnsPVC = (\<lambda>pvc. True)\<rparr>"

definition example_deployment :: "string \<Rightarrow> unstructured" where
  "example_deployment apiVersion = Unstructured (fmap_of_list
     [(''kind'', JString ''Deployment''), (''apiVersion'', JString apiVersion),
      (''metadata'', JMap (fmap_of_list
         [(''name'', JString ''web''), (''namespace'', JString ''ns1''),
          (''uid'', JString ''uid-deploy'')]))])"

definition example_two_versions :: collaborators where
  "example_two_versions =
     \<lparr>Refresh = None,
      Resources =
        [\<lparr>GroupVersion = ''apps/v1'',
          APIResources =
            [\<lparr>Name = ''deployments'', Namespaced = True, Group = ''apps'',
              Kind = ''Deployment''\<rparr>]\<rparr>,
         \<lparr>GroupVersion = ''apps/v1beta2'',
          APIResources =
            [\<lparr>Name = ''deployments'', Namespaced = True, Group = ''apps'',
              Kind = ''Deployment''\<rparr>]\<rparr>],
      ListObjects = (\<lambda>req.
         if reqResource req = ''deployments'' \<and> reqNamespace req = Some ''ns1''
           then Inr [UnstructuredObject
                       (example_deployment
                          (gvGroup (reqGroupVersion req) @ ''/'' @ gvVersion (reqGroupVersion req)))]
         else Inr []),
      GetPersistentVolumeClaim = (\<lambda>name ns. Inl (CollaboratorError ''claim not found'')),
      GetClusterRoleBinding = (\<lambda>name. Inl (CollaboratorError ''binding not found'')),
      ListClusterRoleBindings = Inr [],
      OwnsPVC = (\<lambda>pvc. True)\<rparr>"

definition example_unreachable :: collaborators where
  "example_unreachable =
     example_cluster\<lparr>Refresh := Some (CollaboratorError ''discovery unreachable'')\<rparr>"

definition example_strict_lister :: "list_request \<Rightarrow> error + runtime_object list" where
  "example_strict_lister req =
     (if reqResource req = ''persistentvolumes'' \<and> LabelSelector req \<noteq> []
         \<or> reqResource req \<noteq> ''persistentvolumes'' \<and> LabelSelector req \<noteq> ''app=db''
      then Inl (CollaboratorError ''unexpected selector'')
      else ListObjects example_cluster req)"

definition example_two_failures :: collaborators where
  "example_two_failures =
     example_cluster\<lparr>ListObjects := (\<lambda>req.
        if reqResource req = ''services'' then Inl (CollaboratorError ''too many requests'')
        else if reqResource req = ''clusterrolebindings''
          then Inl (CollaboratorError ''forbidden'')
        else ListObjects example_cluster req)\<rparr>"

section \<open>Resource collector: predicates used in the proofs\<close>

text \<open>
  \<open>collected_since st st' new\<close>: from loop state \<open>st\<close> to \<open>st'\<close> the objects
  \<open>new\<close> were appended, their uids are pairwise distinct and were not in the seen-set
  of \<open>st\<close>, and the seen-set grew by exactly these uids.

  \<open>processed\<close>: a listed object is unstructured and either the inclusion predicate,
  the seen check apart, returns no error on it, or its uid is among \<open>uids\<close>.
  \<open>listed_and_processed\<close> and \<open>group_processed\<close> lift this to the list calls of one
  resource over all requested namespaces, and to one group.
\<close>

definition collected_since ::
  "(string, bool) fmap \<times> unstructured list \<Rightarrow> (string, bool) fmap \<times> unstructured list
     \<Rightarrow> unstructured list \<Rightarrow> bool" where
  "collected_since st st' new \<longleftrightarrow>
     snd st' = snd st @ new
     \<and> distinct (map GetUID new)
     \<and> GetUID ` set new \<inter> fmdom' (fst st) = {}
     \<and> fmdom' (fst st') = fmdom' (fst st) \<union> GetUID ` set new"

definition processed ::
  "collaborators \<Rightarrow> (string, string) fmap \<Rightarrow> string \<Rightarrow> string set \<Rightarrow> runtime_object \<Rightarrow> bool" where
  "processed r sel ns uids ob \<longleftrightarrow>
     (\<exists>u. ob = UnstructuredObject u
          \<and> ((\<exists>collect. objectToBeCollected r sel fmempty u ns = Inr collect)
               \<or> GetUID u \<in> uids))"

definition listed_and_processed ::
  "collaborators \<Rightarrow> (string, string) fmap \<Rightarrow> schema_GroupVersion \<Rightarrow> APIResource
     \<Rightarrow> string list \<Rightarrow> string set \<Rightarrow> bool" where
  "listed_and_processed r sel gv resource namespaces uids \<longleftrightarrow>
     (\<forall>ns \<in> set namespaces.
        \<exists>objects. ListObjects r (listRequest gv resource ns sel) = Inr objects
                  \<and> (\<forall>ob \<in> set objects. processed r sel ns uids ob))"

definition group_processed ::
  "collaborators \<Rightarrow> (string, string) fmap \<Rightarrow> string list \<Rightarrow> string set \<Rightarrow> APIResourceList \<Rightarrow> bool" where
  "group_processed r sel namespaces uids apiGroup \<longleftrightarrow>
     (\<exists>gv. ParseGroupVersion (GroupVersion apiGroup) = Inr gv
        \<and> (gvGroup gv \<noteq> ''extensions'' \<longrightarrow>
             (\<forall>resource \<in> set (APIResources apiGroup). resourceToBeCollected resource \<longrightarrow>
                listed_and_processed r sel gv resource namespaces uids)))"

text \<open>
  What can make the collection fail. \<open>object_failure\<close>: a listed object is not
  unstructured, or the inclusion predicate returns an error on it; \<open>e\<close> is the error
  the collection then returns. \<open>list_failure\<close>: the list call for a resource and a
  namespace fails with \<open>e\<close>, or one of the objects it lists fails with \<open>e\<close>.
  \<open>group_failure\<close>: the group/version of the group does not parse, or the group is not
  \<open>extensions\<close> and a resource to be collected has a failing list call for a requested
  namespace.
\<close>

definition object_failure ::
  "collaborators \<Rightarrow> (string, string) fmap \<Rightarrow> string \<Rightarrow> error \<Rightarrow> runtime_object \<Rightarrow> bool" where
  "object_failure r sel ns e ob \<longleftrightarrow>
     (\<exists>t. ob = TypedObject t \<and> e = ErrorCasting ob)
     \<or> (\<exists>u err. ob = UnstructuredObject u
            \<and> objectToBeCollected r sel fmempty u ns = Inl err
            \<and> e = ErrorProcessingObject u err)"

definition list_failure ::
  "collaborators \<Rightarrow> (string, string) fmap \<Rightarrow> schema_GroupVersion \<Rightarrow> APIResource
     \<Rightarrow> string \<Rightarrow> error \<Rightarrow> bool" where
  "list_failure r sel gv resource ns e \<longleftrightarrow>
     ListObjects r (listRequest gv resource ns sel) = Inl e
     \<or> (\<exists>objects. ListObjects r (listRequest gv resource ns sel) = Inr objects
                   \<and> list_ex (object_failure r sel ns e) objects)"

definition group_failure ::
  "collaborators \<Rightarrow> (string, string) fmap \<Rightarrow> string list \<Rightarrow> error \<Rightarrow> APIResourceList \<Rightarrow> bool" where
  "group_failure r sel namespaces e apiGroup \<longleftrightarrow>
     ParseGroupVersion (GroupVersion apiGroup) = Inl e
     \<or> (\<exists>gv. ParseGroupVersion (GroupVersion apiGroup) = Inr gv
             \<and> gvGroup gv \<noteq> ''extensions''
             \<and> list_ex (\<lambda>resource. resourceToBeCollected resource
                     \<and> list_ex (\<lambda>ns. list_failure r sel gv resource ns e) namespaces)
                  (APIResources apiGroup))"

section \<open>Backup location: theorems\<close>

text \<open>
  C5. In the S3 merge, when the secret is found and its data has a \<open>region\<close> key, the
  value of that key (one trailing newline trimmed) ends up in the secret-access-key field
  of the S3 config, and the region field keeps the value it had before the secret was
  merged: the inline region, or the default \<open>us-east-1\<close> of a config that was nil.
\<close>

theorem getMergedS3Config_region_into_secret_key:
  assumes "SecretConfig (Location bl) \<noteq> []"
    and "client (Namespace bl) (SecretConfig (Location bl)) = Inr secret"
    and "fmlookup (Data secret) ''region'' = Some v"
  shows "\<exists>bl' c'. getMergedS3Config client bl = (bl', None)
           \<and> S3Config (Location bl') = Some c'
           \<and> SecretAccessKey c' = TrimSuffix v newline
           \<and> Region c' = (case S3Config (Location bl) of
                             None \<Rightarrow> ''us-east-1'' | Some c \<Rightarrow> Region c)"
  using assms
  by (simp add: getMergedS3Config_def Let_def split: option.splits)

theorem getMergedS3Config_region_into_secret_key_witness:
  "SecretConfig (Location example_s3_location) \<noteq> []
   \<and> fmlookup (Data \<lparr>Data = fmap_of_list
                  [(''accessKeyID'', ''AKIA''),
                   (''secretAccessKey'', ''topsecret'' @ newline),
                   (''region'', ''eu-west-1'' @ newline)]\<rparr>) ''region''
       = Some (''eu-west-1'' @ newline)
   \<and> (\<exists>bl' c'. getMergedS3Config example_secret_client example_s3_location = (bl', None)
           \<and> S3Config (Location bl') = Some c'
           \<and> SecretAccessKey c' = ''eu-west-1''
           \<and> Region c' = ''us-west-2'')"
  using getMergedS3Config_region_into_secret_key
          [of example_s3_location example_secret_client
              "\<lparr>Data = fmap_of_list
                  [(''accessKeyID'', ''AKIA''),
                   (''secretAccessKey'', ''topsecret'' @ newline),
                   (''region'', ''eu-west-1'' @ newline)]\<rparr>"
              "''eu-west-1'' @ newline"]
  by (simp add: example_s3_location_def example_secret_client_def
        TrimSuffix_def HasSuffix_def newline_def)

text \<open>
  C10. When the secret reference of a backup location is the empty string,
  \<open>UpadteFromSecret\<close> returns no error and the backup location is unchanged, whatever
  its type is.
\<close>

theorem UpadteFromSecret_no_secret_config:
  "SecretConfig (Location bl) = [] \<Longrightarrow> UpadteFromSecret client bl = (bl, None)"
  by (simp add: UpadteFromSecret_def)

theorem UpadteFromSecret_no_secret_config_witness:
  "SecretConfig (Location example_inline_location) = []
   \<and> UpadteFromSecret example_secret_client example_inline_location
       = (example_inline_location, None)"
  using UpadteFromSecret_no_secret_config [of example_inline_location example_secret_client]
  by (simp add: example_inline_location_def)

section \<open>Resource collector: theorems\<close>

lemmas accessor_defs = GetUID_def GetName_def GetNamespace_def GetAPIVersion_def GetKind_def
  getNestedString_def ObjectKind_def ParseGroupVersion_def

text \<open>
  C7. For an object of kind \<open>PersistentVolumeClaim\<close> that has not been collected yet and
  whose typed claim is fetched without error, the inclusion predicate returns no error,
  and it returns true exactly when the claim's phase is \<open>Bound\<close> and the volume driver
  owns the claim.
\<close>

theorem objectToBeCollected_PersistentVolumeClaim:
  assumes "ObjectKind object = ''PersistentVolumeClaim''"
    and "fmlookup resourceMap (GetUID object) = None"
    and "GetPersistentVolumeClaim r (GetName object) namespace = Inr pvc"
  shows "objectToBeCollected r labelSelectors resourceMap object namespace
           = Inr (pvc_Phase pvc = ''Bound'' \<and> OwnsPVC r pvc)"
  using assms by (simp add: objectToBeCollected_def ClaimBound_def)

theorem objectToBeCollected_PersistentVolumeClaim_witness:
  "ObjectKind example_pvc_object = ''PersistentVolumeClaim''
   \<and> fmlookup fmempty (GetUID example_pvc_object) = (None :: bool option)
   \<and> GetPersistentVolumeClaim example_cluster (GetName example_pvc_object) ''ns1'' = Inr example_pvc
   \<and> objectToBeCollected example_cluster (fmap_of_list [(''app'', ''db'')]) fmempty
        example_pvc_object ''ns1'' = Inr True"
proof -
  have k: "ObjectKind example_pvc_object = ''PersistentVolumeClaim''"
    by (simp add: example_pvc_object_def accessor_defs)
  have s: "fmlookup fmempty (GetUID example_pvc_object) = (None :: bool option)"
    by simp
  have g: "GetPersistentVolumeClaim example_cluster (GetName example_pvc_object) ''ns1''
             = Inr example_pvc"
    by (simp add: example_cluster_def example_pvc_object_def accessor_defs)
  have "OwnsPVC example_cluster example_pvc" "pvc_Phase example_pvc = ''Bound''"
    by (simp_all add: example_cluster_def example_pvc_def)
  with objectToBeCollected_PersistentVolumeClaim [OF k s g] k s g
  show ?thesis by simp
qed

text \<open>
  C8. For an object of kind \<open>ClusterRoleBinding\<close> that has not been collected yet and
  whose typed binding is fetched without error, the inclusion predicate returns true
  exactly when one of the binding's subjects has the requested namespace.
\<close>

theorem objectToBeCollected_ClusterRoleBinding:
  assumes "ObjectKind object = ''ClusterRoleBinding''"
    and "fmlookup resourceMap (GetUID object) = None"
    and "GetClusterRoleBinding r (GetName object) = Inr crb"
  shows "objectToBeCollected r labelSelectors resourceMap object namespace
           = Inr (\<exists>subject \<in> set (crb_Subjects crb). subject_Namespace subject = namespace)"
  using assms by (simp add: objectToBeCollected_def list_ex_iff)

theorem objectToBeCollected_ClusterRoleBinding_witness:
  "ObjectKind example_crb_object = ''ClusterRoleBinding''
   \<and> fmlookup fmempty (GetUID example_crb_object) = (None :: bool option)
   \<and> GetClusterRoleBinding example_cluster (GetName example_crb_object) = Inr example_crb
   \<and> objectToBeCollected example_cluster fmempty fmempty example_crb_object ''ns1'' = Inr True
   \<and> objectToBeCollected example_cluster fmempty fmempty example_crb_object ''ns2'' = Inr False"
proof -
  have k: "ObjectKind example_crb_object = ''ClusterRoleBinding''"
    by (simp add: example_crb_object_def accessor_defs)
  have s: "fmlookup fmempty (GetUID example_crb_object) = (None :: bool option)"
    by simp
  have g: "GetClusterRoleBinding example_cluster (GetName example_crb_object) = Inr example_crb"
    by (simp add: example_cluster_def example_crb_object_def accessor_defs)
  show ?thesis
    using objectToBeCollected_ClusterRoleBinding [OF k s g, of fmempty "''ns1''"]
      objectToBeCollected_ClusterRoleBinding [OF k s g, of fmempty "''ns2''"] k s g
    by (simp add: example_crb_def)
qed

lemma AreLabelsInWhiteList_iff:
  "AreLabelsInWhiteList labels whitelist \<longleftrightarrow>
     whitelist = fmempty \<or> (\<forall>k v. fmlookup labels k = Some v \<longrightarrow> fmlookup whitelist k = Some v)"
  by (auto simp: AreLabelsInWhiteList_def fmpred_iff)

lemma fmempty_lookup_iff: "m = fmempty \<longleftrightarrow> (\<forall>k. fmlookup m k = None)"
  by (metis fmap_ext fmempty_lookup)

text \<open>
  C2, as amended. For an object of kind \<open>PersistentVolume\<close> that has not been collected
  yet, the inclusion predicate returns

  \<^item> true exactly when its \<open>status.phase\<close> is \<open>Bound\<close>, its spec has a claim reference
    with a non-empty name and with the requested namespace, that claim is fetched without
    error and the volume driver owns it, and, when the requested label selector is not
    empty, the claim has at least one label and every key/value pair of the selector is a
    label of the claim;

  \<^item> false (the volume is left out and the collection goes on) exactly when the phase is
    another string, or the phase is \<open>Bound\<close> and the claim reference's name is the empty
    string, or its namespace is another one than the requested, or the fetched claim is
    not owned, or the selector is not empty and the claim has no label or lacks one of
    the selector's pairs;

  \<^item> an error exactly when the phase cannot be read as a string, or the phase is \<open>Bound\<close>
    and the name or the namespace of the claim reference is absent or not a string, or the
    claim cannot be fetched; the error is that of the failing read or fetch.

  The claim as stated calls a volume without claim reference ineligible; the code leaves
  out a volume whose claim reference has an empty name, but on a \<open>Bound\<close> volume whose
  spec has no claim reference at all it returns the error of the failed read, which ends
  the whole collection.
\<close>

theorem objectToBeCollected_PersistentVolume:
  assumes "ObjectKind object = ''PersistentVolume''"
    and "fmlookup resourceMap (GetUID object) = None"
  shows "(objectToBeCollected r labelSelectors resourceMap object namespace = Inr True \<longleftrightarrow>
     GetString (UnstructuredContent object) ''status.phase'' = Inr ''Bound''
     \<and> (\<exists>pvcName pvc.
          GetString (UnstructuredContent object) ''spec.claimRef.name'' = Inr pvcName
          \<and> pvcName \<noteq> []
          \<and> GetString (UnstructuredContent object) ''spec.claimRef.namespace'' = Inr namespace
          \<and> GetPersistentVolumeClaim r pvcName namespace = Inr pvc
          \<and> OwnsPVC r pvc
          \<and> (labelSelectors \<noteq> fmempty \<longrightarrow>
                pvc_Labels pvc \<noteq> fmempty
                \<and> (\<forall>k v. fmlookup labelSelectors k = Some v
                       \<longrightarrow> fmlookup (pvc_Labels pvc) k = Some v))))
   \<and> (objectToBeCollected r labelSelectors resourceMap object namespace = Inr False \<longleftrightarrow>
     (\<exists>phase. GetString (UnstructuredContent object) ''status.phase'' = Inr phase
        \<and> phase \<noteq> ''Bound'')
     \<or> GetString (UnstructuredContent object) ''status.phase'' = Inr ''Bound''
        \<and> (\<exists>pvcName.
              GetString (UnstructuredContent object) ''spec.claimRef.name'' = Inr pvcName
              \<and> (pvcName = []
                   \<or> (\<exists>pvcNamespace.
                         GetString (UnstructuredContent object) ''spec.claimRef.namespace''
                           = Inr pvcNamespace
                         \<and> (pvcNamespace \<noteq> namespace
                              \<or> (\<exists>pvc. GetPersistentVolumeClaim r pvcName pvcNamespace = Inr pvc
                                    \<and> (\<not> OwnsPVC r pvc
                                         \<or> labelSelectors \<noteq> fmempty
                                            \<and> (pvc_Labels pvc = fmempty
                                                 \<or> (\<exists>k v. fmlookup labelSelectors k = Some v
                                                       \<and> fmlookup (pvc_Labels pvc) k \<noteq> Some v)))))))))
   \<and> (objectToBeCollected r labelSelectors resourceMap object namespace = Inl err \<longleftrightarrow>
     GetString (UnstructuredContent object) ''status.phase'' = Inl err
     \<or> GetString (UnstructuredContent object) ''status.phase'' = Inr ''Bound''
        \<and> (GetString (UnstructuredContent object) ''spec.claimRef.name'' = Inl err
             \<or> (\<exists>pvcName.
                   GetString (UnstructuredContent object) ''spec.claimRef.name'' = Inr pvcName
                   \<and> pvcName \<noteq> []
                   \<and> (GetString (UnstructuredContent object) ''spec.claimRef.namespace'' = Inl err
                        \<or> GetString (UnstructuredContent object) ''spec.claimRef.namespace''
                             = Inr namespace
                           \<and> GetPersistentVolumeClaim r pvcName namespace = Inl err))))"
proof -
  let ?res = "objectToBeCollected r labelSelectors resourceMap object namespace"
  let ?c = "UnstructuredContent object"
  show ?thesis
  proof (cases "GetString ?c ''status.phase''")
    case (Inl e1)
    with assms show ?thesis
      by (auto simp: objectToBeCollected_def)
  next
    case phase: (Inr phase)
    show ?thesis
    proof (cases "phase = ''Bound''")
      case False
      with assms phase show ?thesis
        by (auto simp: objectToBeCollected_def ClaimBound_def)
    next
      case bound: True
      show ?thesis
      proof (cases "GetString ?c ''spec.claimRef.name''")
        case (Inl e2)
        with assms phase bound show ?thesis
          by (auto simp: objectToBeCollected_def ClaimBound_def)
      next
        case name: (Inr pvcName)
        show ?thesis
        proof (cases "pvcName = []")
          case True
          with assms phase bound name show ?thesis
            by (auto simp: objectToBeCollected_def ClaimBound_def)
        next
          case nonempty: False
          show ?thesis
          proof (cases "GetString ?c ''spec.claimRef.namespace''")
            case (Inl e3)
            with assms phase bound name nonempty show ?thesis
              by (auto simp: objectToBeCollected_def ClaimBound_def)
          next
            case ns: (Inr pvcNamespace)
            show ?thesis
            proof (cases "pvcNamespace = namespace")
              case False
              with assms phase bound name nonempty ns show ?thesis
                by (auto simp: objectToBeCollected_def ClaimBound_def)
            next
              case same: True
              show ?thesis
              proof (cases "GetPersistentVolumeClaim r pvcName namespace")
                case (Inl e4)
                with assms phase bound name nonempty ns same show ?thesis
                  by (auto simp: objectToBeCollected_def ClaimBound_def)
              next
                case (Inr pvc)
                have lab: "AreLabelsInWhiteList labelSelectors (pvc_Labels pvc) \<longleftrightarrow>
                   pvc_Labels pvc = fmempty
                   \<or> (\<forall>k v. fmlookup labelSelectors k = Some v
                          \<longrightarrow> fmlookup (pvc_Labels pvc) k = Some v)"
                  by (rule AreLabelsInWhiteList_iff)
                have emp: "labelSelectors = fmempty \<Longrightarrow>
                     (\<forall>k v. fmlookup labelSelectors k = Some v
                          \<longrightarrow> fmlookup (pvc_Labels pvc) k = Some v)"
                  by simp
                from assms phase bound name nonempty ns same Inr lab emp show ?thesis
                  by (auto simp: objectToBeCollected_def ClaimBound_def)
              qed
            qed
          qed
        qed
      qed
    qed
  qed
qed

theorem objectToBeCollected_PersistentVolume_witness:
  "ObjectKind example_pv_object = ''PersistentVolume''
   \<and> fmlookup fmempty (GetUID example_pv_object) = (None :: bool option)
   \<and> objectToBeCollected example_cluster (fmap_of_list [(''app'', ''db'')]) fmempty
         example_pv_object ''ns1'' = Inr True
   \<and> objectToBeCollected example_cluster (fmap_of_list [(''app'', ''web'')]) fmempty
         example_pv_object ''ns1'' = Inr False
   \<and> objectToBeCollected example_cluster (fmap_of_list [(''app'', ''db'')]) fmempty
         example_pv_object ''ns2'' = Inr False
   \<and> ObjectKind example_unclaimed_pv = ''PersistentVolume''
   \<and> objectToBeCollected example_cluster (fmap_of_list [(''app'', ''db'')]) fmempty
         example_unclaimed_pv ''ns1'' = Inl (KeyNotFound ''claimRef'')"
proof -
  have k: "ObjectKind example_pv_object = ''PersistentVolume''"
    by (simp add: example_pv_object_def accessor_defs)
  have s: "fmlookup fmempty (GetUID example_pv_object) = (None :: bool option)"
    by simp
  have p: "GetString (UnstructuredContent example_pv_object) ''status.phase'' = Inr ''Bound''"
    and n: "GetString (UnstructuredContent example_pv_object) ''spec.claimRef.name''
              = Inr ''data-pvc''"
    and m: "GetString (UnstructuredContent example_pv_object) ''spec.claimRef.namespace''
              = Inr ''ns1''"
    by (simp_all add: example_pv_object_def GetString_def GetValue_def)
  have g: "GetPersistentVolumeClaim example_cluster ''data-pvc'' ''ns1'' = Inr example_pvc"
    and w: "OwnsPVC example_cluster example_pvc"
    and l: "pvc_Labels example_pvc = fmap_of_list [(''app'', ''db'')]"
    by (simp_all add: example_cluster_def example_pvc_def)
  have "objectToBeCollected example_cluster (fmap_of_list [(''app'', ''db'')]) fmempty
          example_pv_object ''ns1'' = Inr True"
    using objectToBeCollected_PersistentVolume [OF k s, of example_cluster
        "fmap_of_list [(''app'', ''db'')]" "''ns1''", THEN conjunct1] p n m g w l
    by simp
  moreover have "objectToBeCollected example_cluster (fmap_of_list [(''app'', ''web'')]) fmempty
          example_pv_object ''ns1'' = Inr False"
    using objectToBeCollected_PersistentVolume [OF k s, of example_cluster
        "fmap_of_list [(''app'', ''web'')]" "''ns1''", THEN conjunct2, THEN conjunct1] p n m g w l
    by auto
  moreover have "objectToBeCollected example_cluster (fmap_of_list [(''app'', ''db'')]) fmempty
          example_pv_object ''ns2'' = Inr False"
    using objectToBeCollected_PersistentVolume [OF k s, of example_cluster
        "fmap_of_list [(''app'', ''db'')]" "''ns2''", THEN conjunct2, THEN conjunct1] p n m
    by simp
  moreover have k2: "ObjectKind example_unclaimed_pv = ''PersistentVolume''"
    by (simp add: example_unclaimed_pv_def accessor_defs)
  moreover have "objectToBeCollected example_cluster (fmap_of_list [(''app'', ''db'')]) fmempty
         example_unclaimed_pv ''ns1'' = Inl (KeyNotFound ''claimRef'')"
  proof -
    have s2: "fmlookup fmempty (GetUID example_unclaimed_pv) = (None :: bool option)"
      by simp
    have p2: "GetString (UnstructuredContent example_unclaimed_pv) ''status.phase''
                = Inr ''Bound''"
      and n2: "GetString (UnstructuredContent example_unclaimed_pv) ''spec.claimRef.name''
                = Inl (KeyNotFound ''claimRef'')"
      by (simp_all add: example_unclaimed_pv_def GetString_def GetValue_def)
    from objectToBeCollected_PersistentVolume [OF k2 s2, of example_cluster
        "fmap_of_list [(''app'', ''db'')]" "''ns1''" "KeyNotFound ''claimRef''",
        THEN conjunct2, THEN conjunct2] p2 n2
    show ?thesis by simp
  qed
  ultimately show ?thesis using k s by simp
qed

theorem objectToBeCollected_PersistentVolume_counterexample:
  "ObjectKind example_unclaimed_pv = ''PersistentVolume''
   \<and> GetString (UnstructuredContent example_unclaimed_pv) ''status.phase'' = Inr ''Bound''
   \<and> NestedField (UnstructuredContent example_unclaimed_pv) [''spec'', ''claimRef''] = None
   \<and> objectToBeCollected example_cluster fmempty fmempty example_unclaimed_pv ''ns1''
        = Inl (KeyNotFound ''claimRef'')
   \<and> objectToBeCollected example_cluster fmempty fmempty example_unclaimed_pv ''ns1''
        \<noteq> Inr False"
  by code_simp

lemma Split_no_dot: "CHR ''.'' \<notin> set path \<Longrightarrow> Split path (CHR ''.'') = [path]"
  by (induction path) auto

lemma GetMap_key:
  "CHR ''.'' \<notin> set key \<Longrightarrow>
   GetMap root key = (case fmlookup root key of
                        None \<Rightarrow> Inl (KeyNotFound key)
                      | Some (JMap m) \<Rightarrow> Inr m
                      | Some _ \<Rightarrow> Inl (NotAMap key))"
  by (simp add: GetMap_def GetValue_def Split_no_dot split: option.splits jval.splits)

lemma GetString_key:
  "CHR ''.'' \<notin> set key \<Longrightarrow>
   GetString root key = (case fmlookup root key of
                        None \<Rightarrow> Inl (KeyNotFound key)
                      | Some (JString s) \<Rightarrow> Inr s
                      | Some _ \<Rightarrow> Inl (NotAString key))"
  by (simp add: GetString_def GetValue_def Split_no_dot split: option.splits jval.splits)

lemma ObjectKind_cong:
  "fmlookup c ''kind'' = fmlookup c' ''kind'' \<Longrightarrow>
   fmlookup c ''apiVersion'' = fmlookup c' ''apiVersion'' \<Longrightarrow>
   ObjectKind (Unstructured c) = ObjectKind (Unstructured c')"
  by (simp add: ObjectKind_def GetKind_def GetAPIVersion_def getNestedString_def
      split: sum.splits)

lemma ObjectKind_drop_status:
  "ObjectKind (Unstructured (fmdrop ''status'' (UnstructuredContent ob))) = ObjectKind ob"
  by (cases ob) (auto intro!: ObjectKind_cong)

lemma preparePVResource_other:
  "preparePVResource ob = Inr ob' \<Longrightarrow> k \<noteq> ''spec'' \<Longrightarrow>
   fmlookup (UnstructuredContent ob') k = fmlookup (UnstructuredContent ob) k"
  by (auto simp: preparePVResource_def split: sum.splits)

lemma prepareServiceResource_other:
  "prepareServiceResource ob = Inr ob' \<Longrightarrow> k \<noteq> ''spec'' \<Longrightarrow>
   fmlookup (UnstructuredContent ob') k = fmlookup (UnstructuredContent ob) k"
  by (auto simp: prepareServiceResource_def split: sum.splits if_splits)

lemma prepareResource_None:
  assumes "prepareResource ob = (ob', None)"
  shows "\<exists>o2 md.
    (if ObjectKind ob = ''PersistentVolume''
       then preparePVResource (Unstructured (fmdrop ''status'' (UnstructuredContent ob))) = Inr o2
     else if ObjectKind ob = ''Service''
       then prepareServiceResource (Unstructured (fmdrop ''status'' (UnstructuredContent ob))) = Inr o2
     else o2 = Unstructured (fmdrop ''status'' (UnstructuredContent ob)))
    \<and> GetMap (UnstructuredContent o2) ''metadata'' = Inr md
    \<and> ob' = Unstructured (fmupd ''metadata'' (JMap (fmfilter (\<lambda>key. key \<in> set [''name'', ''namespace'', ''labels'', ''annotations'']) md)) (UnstructuredContent o2))"
proof -
  let ?o1 = "Unstructured (fmdrop ''status'' (UnstructuredContent ob))"
  consider (pv) "ObjectKind ?o1 = ''PersistentVolume''"
    | (svc) "ObjectKind ?o1 \<noteq> ''PersistentVolume''" "ObjectKind ?o1 = ''Service''"
    | (other) "ObjectKind ?o1 \<noteq> ''PersistentVolume''" "ObjectKind ?o1 \<noteq> ''Service''"
    by blast
  then show ?thesis
  proof cases
    case pv
    with assms show ?thesis
      by (cases "preparePVResource ?o1")
         (auto simp: prepareResource_def Let_def ObjectKind_drop_status split: sum.splits)
  next
    case svc
    with assms show ?thesis
      by (cases "prepareServiceResource ?o1")
         (auto simp: prepareResource_def Let_def ObjectKind_drop_status split: sum.splits)
  next
    case other
    with assms show ?thesis
      by (auto simp: prepareResource_def Let_def ObjectKind_drop_status split: sum.splits)
  qed
qed

lemma prepareResource_NoneD:
  assumes "prepareResource ob = (ob', None)"
  shows "\<exists>o2 md.
    (\<forall>k. k \<noteq> ''spec'' \<longrightarrow> fmlookup (UnstructuredContent o2) k
          = fmlookup (fmdrop ''status'' (UnstructuredContent ob)) k)
    \<and> (ObjectKind ob = ''Service'' \<longrightarrow>
         prepareServiceResource (Unstructured (fmdrop ''status'' (UnstructuredContent ob))) = Inr o2)
    \<and> fmlookup (UnstructuredContent o2) ''metadata'' = Some (JMap md)
    \<and> ob' = Unstructured (fmupd ''metadata'' (JMap (fmfilter (\<lambda>key. key \<in> set [''name'', ''namespace'', ''labels'', ''annotations'']) md)) (UnstructuredContent o2))"
proof -
  from prepareResource_None [OF assms] obtain o2 md where
    a: "if ObjectKind ob = ''PersistentVolume''
       then preparePVResource (Unstructured (fmdrop ''status'' (UnstructuredContent ob))) = Inr o2
     else if ObjectKind ob = ''Service''
       then prepareServiceResource (Unstructured (fmdrop ''status'' (UnstructuredContent ob))) = Inr o2
     else o2 = Unstructured (fmdrop ''status'' (UnstructuredContent ob))"
    and b: "GetMap (UnstructuredContent o2) ''metadata'' = Inr md"
    and c: "ob' = Unstructured (fmupd ''metadata'' (JMap (fmfilter (\<lambda>key. key \<in> set [''name'', ''namespace'', ''labels'', ''annotations'']) md)) (UnstructuredContent o2))"
    by blast
  from b have m: "fmlookup (UnstructuredContent o2) ''metadata'' = Some (JMap md)"
    by (simp add: GetMap_key split: option.splits jval.splits)
  from a have k: "\<forall>k. k \<noteq> ''spec'' \<longrightarrow> fmlookup (UnstructuredContent o2) k
          = fmlookup (fmdrop ''status'' (UnstructuredContent ob)) k"
    using preparePVResource_other [of _ o2] prepareServiceResource_other [of _ o2]
    by (auto split: if_splits)
  from a have s: "ObjectKind ob = ''Service'' \<longrightarrow>
         prepareServiceResource (Unstructured (fmdrop ''status'' (UnstructuredContent ob))) = Inr o2"
    by (auto split: if_splits)
  from k s m c show ?thesis by blast
qed

lemma prepareResource_status:
  assumes "prepareResource ob = (ob', None)"
  shows "fmlookup (UnstructuredContent ob') ''status'' = None"
proof -
  from prepareResource_NoneD [OF assms] obtain o2 md where
    k: "\<forall>k. k \<noteq> ''spec'' \<longrightarrow> fmlookup (UnstructuredContent o2) k
          = fmlookup (fmdrop ''status'' (UnstructuredContent ob)) k"
    and c: "ob' = Unstructured (fmupd ''metadata'' (JMap (fmfilter (\<lambda>key. key \<in> set [''name'', ''namespace'', ''labels'', ''annotations'']) md)) (UnstructuredContent o2))"
    by blast
  from k have "fmlookup (UnstructuredContent o2) ''status'' = None" by simp
  with c show ?thesis by simp
qed

lemma prepareResource_metadata:
  assumes "prepareResource ob = (ob', None)"
  shows "\<exists>md. fmlookup (UnstructuredContent ob) ''metadata'' = Some (JMap md)
           \<and> fmlookup (UnstructuredContent ob') ''metadata'' = Some (JMap (fmfilter (\<lambda>key. key \<in> set [''name'', ''namespace'', ''labels'', ''annotations'']) md))"
proof -
  from prepareResource_NoneD [OF assms] obtain o2 md where
    k: "\<forall>k. k \<noteq> ''spec'' \<longrightarrow> fmlookup (UnstructuredContent o2) k
          = fmlookup (fmdrop ''status'' (UnstructuredContent ob)) k"
    and m: "fmlookup (UnstructuredContent o2) ''metadata'' = Some (JMap md)"
    and c: "ob' = Unstructured (fmupd ''metadata'' (JMap (fmfilter (\<lambda>key. key \<in> set [''name'', ''namespace'', ''labels'', ''annotations'']) md)) (UnstructuredContent o2))"
    by blast
  from k m have "fmlookup (UnstructuredContent ob) ''metadata'' = Some (JMap md)" by simp
  with c show ?thesis by simp
qed

lemma NestedField_spec_clusterIP:
  "NestedField c [''spec'', ''clusterIP''] =
     (case fmlookup c ''spec'' of Some (JMap spec) \<Rightarrow> fmlookup spec ''clusterIP'' | _ \<Rightarrow> None)"
  by (simp split: option.splits jval.splits)

lemma prepareServiceResource_clusterIP:
  assumes "prepareServiceResource ob = Inr ob'"
  shows "NestedField (UnstructuredContent ob') [''spec'', ''clusterIP''] =
          (case NestedField (UnstructuredContent ob) [''spec'', ''clusterIP''] of
             Some (JString ip) \<Rightarrow> if ip = ''None'' then Some (JString ''None'') else None
           | v \<Rightarrow> v)"
proof -
  from assms obtain spec where
    s: "fmlookup (UnstructuredContent ob) ''spec'' = Some (JMap spec)"
    by (auto simp: prepareServiceResource_def GetMap_key split: sum.splits option.splits jval.splits)
  then have g: "GetMap (UnstructuredContent ob) ''spec'' = Inr spec"
    by (simp add: GetMap_key)
  show ?thesis
  proof (cases "fmlookup spec ''clusterIP''")
    case None
    with assms g s show ?thesis
      by (auto simp: prepareServiceResource_def GetString_key NestedField_spec_clusterIP)
  next
    case (Some v)
    with assms g s show ?thesis
      by (cases v) (auto simp: prepareServiceResource_def GetString_key NestedField_spec_clusterIP
          split: if_splits)
  qed
qed

lemma prepareResource_clusterIP:
  assumes "prepareResource ob = (ob', None)" and "ObjectKind ob = ''Service''"
  shows "NestedField (UnstructuredContent ob') [''spec'', ''clusterIP''] =
          (case NestedField (UnstructuredContent ob) [''spec'', ''clusterIP''] of
             Some (JString ip) \<Rightarrow> if ip = ''None'' then Some (JString ''None'') else None
           | v \<Rightarrow> v)"
proof -
  let ?o1 = "Unstructured (fmdrop ''status'' (UnstructuredContent ob))"
  from prepareResource_NoneD [OF assms(1)] assms(2) obtain o2 md where
    s: "prepareServiceResource ?o1 = Inr o2"
    and c: "ob' = Unstructured (fmupd ''metadata'' (JMap (fmfilter (\<lambda>key. key \<in> set [''name'', ''namespace'', ''labels'', ''annotations'']) md)) (UnstructuredContent o2))"
    by blast
  have "NestedField (UnstructuredContent ob') [''spec'', ''clusterIP'']
          = NestedField (UnstructuredContent o2) [''spec'', ''clusterIP'']"
    using c by (simp add: NestedField_spec_clusterIP)
  also have "\<dots> = (case NestedField (UnstructuredContent ?o1) [''spec'', ''clusterIP''] of
             Some (JString ip) \<Rightarrow> if ip = ''None'' then Some (JString ''None'') else None
           | v \<Rightarrow> v)"
    by (rule prepareServiceResource_clusterIP [OF s])
  also have "NestedField (UnstructuredContent ?o1) [''spec'', ''clusterIP'']
          = NestedField (UnstructuredContent ob) [''spec'', ''clusterIP'']"
    by (simp add: NestedField_spec_clusterIP)
  finally show ?thesis .
qed

lemma prepareResources_list_all2:
  "prepareResources objects = (objects', None) \<Longrightarrow>
   list_all2 (\<lambda>ob ob'. prepareResource ob = (ob', None)) objects objects'"
proof (induction objects arbitrary: objects')
  case Nil
  then show ?case by simp
next
  case (Cons ob objects)
  then show ?case
    by (auto split: prod.splits option.splits)
qed

text \<open>
  C3. When the preparation pass returns without error, it has kept every object in its
  place, and in each of them the \<open>status\<close> entry is absent and the keys of the metadata
  map are exactly those keys of the input's metadata map that are among \<open>name\<close>,
  \<open>namespace\<close>, \<open>labels\<close> and \<open>annotations\<close>.
\<close>

theorem prepareResources_status_and_metadata:
  assumes "prepareResources objects = (objects', None)"
  shows "length objects' = length objects
    \<and> (\<forall>i < length objects.
          fmlookup (UnstructuredContent (objects' ! i)) ''status'' = None
          \<and> (\<exists>md md'.
                fmlookup (UnstructuredContent (objects ! i)) ''metadata'' = Some (JMap md)
                \<and> fmlookup (UnstructuredContent (objects' ! i)) ''metadata'' = Some (JMap md')
                \<and> fmdom' md' = fmdom' md \<inter> {''name'', ''namespace'', ''labels'', ''annotations''}))"
proof -
  from assms have all2: "list_all2 (\<lambda>ob ob'. prepareResource ob = (ob', None)) objects objects'"
    by (rule prepareResources_list_all2)
  then have len: "length objects' = length objects"
    by (simp add: list_all2_lengthD)
  have "fmlookup (UnstructuredContent (objects' ! i)) ''status'' = None
          \<and> (\<exists>md md'.
                fmlookup (UnstructuredContent (objects ! i)) ''metadata'' = Some (JMap md)
                \<and> fmlookup (UnstructuredContent (objects' ! i)) ''metadata'' = Some (JMap md')
                \<and> fmdom' md' = fmdom' md \<inter> {''name'', ''namespace'', ''labels'', ''annotations''})"
    if "i < length objects" for i
  proof -
    have p: "prepareResource (objects ! i) = (objects' ! i, None)"
      using list_all2_nthD [OF all2 that] by simp
    from prepareResource_metadata [OF p] obtain md where
      "fmlookup (UnstructuredContent (objects ! i)) ''metadata'' = Some (JMap md)"
      "fmlookup (UnstructuredContent (objects' ! i)) ''metadata''
         = Some (JMap (fmfilter (\<lambda>key. key \<in> set [''name'', ''namespace'', ''labels'', ''annotations'']) md))"
      by blast
    moreover have "fmdom' (fmfilter (\<lambda>key. key \<in> set [''name'', ''namespace'', ''labels'', ''annotations'']) md)
           = fmdom' md \<inter> {''name'', ''namespace'', ''labels'', ''annotations''}"
      by (auto simp: fmdom'_filter)
    ultimately show ?thesis
      using prepareResource_status [OF p] by simp
  qed
  with len show ?thesis by blast
qed

theorem prepareResources_status_and_metadata_witness:
  "snd (prepareResources [example_pv_object, example_service]) = None
   \<and> fmlookup (UnstructuredContent (fst (prepareResources [example_pv_object, example_service]) ! 1))
        ''status'' = None
   \<and> (\<exists>md'. fmlookup (UnstructuredContent
                 (fst (prepareResources [example_pv_object, example_service]) ! 1)) ''metadata''
               = Some (JMap md')
             \<and> fmdom' md' = {''name'', ''namespace'', ''labels''})"
proof -
  have s: "snd (prepareResources [example_pv_object, example_service]) = None"
    by code_simp
  then have h: "prepareResources [example_pv_object, example_service]
                  = (fst (prepareResources [example_pv_object, example_service]), None)"
    by (simp add: prod_eq_iff)
  have m: "fmlookup (UnstructuredContent ([example_pv_object, example_service] ! 1)) ''metadata''
        = Some (JMap (fmap_of_list
         [(''name'', JString ''web''), (''namespace'', JString ''ns1''),
          (''uid'', JString ''uid-svc''), (''resourceVersion'', JString ''7''),
          (''labels'', JMap (fmap_of_list [(''app'', JString ''db'')]))]))"
    by (simp add: example_service_def)
  have d: "fmdom' (fmap_of_list
         [(''name'', JString ''web''), (''namespace'', JString ''ns1''),
          (''uid'', JString ''uid-svc''), (''resourceVersion'', JString ''7''),
          (''labels'', JMap (fmap_of_list [(''app'', JString ''db'')]))])
        \<inter> {''name'', ''namespace'', ''labels'', ''annotations''}
        = {''name'', ''namespace'', ''labels''}"
    by auto
  have "(1::nat) < length [example_pv_object, example_service]"
    by simp
  from prepareResources_status_and_metadata [OF h, THEN conjunct2, rule_format, OF this]
  obtain md md' where
    A: "fmlookup (UnstructuredContent
        (fst (prepareResources [example_pv_object, example_service]) ! 1)) ''status'' = None"
    and B: "fmlookup (UnstructuredContent ([example_pv_object, example_service] ! 1)) ''metadata''
       = Some (JMap md)"
    and C: "fmlookup (UnstructuredContent
        (fst (prepareResources [example_pv_object, example_service]) ! 1)) ''metadata''
       = Some (JMap md')"
    and D: "fmdom' md' = fmdom' md \<inter> {''name'', ''namespace'', ''labels'', ''annotations''}"
    by blast
  from B [unfolded m] have "md = fmap_of_list
         [(''name'', JString ''web''), (''namespace'', JString ''ns1''),
          (''uid'', JString ''uid-svc''), (''resourceVersion'', JString ''7''),
          (''labels'', JMap (fmap_of_list [(''app'', JString ''db'')]))]"
    by (simp only: option.inject jval.inject)
  from D [unfolded this] d have "fmdom' md' = {''name'', ''namespace'', ''labels''}"
    by (rule trans)
  with A C s show ?thesis
    by blast
qed

lemma prepareResources_clusterIP_exact:
  assumes "prepareResources objects = (objects', None)"
    and "i < length objects"
    and "ObjectKind (objects ! i) = ''Service''"
  shows "NestedField (UnstructuredContent (objects' ! i)) [''spec'', ''clusterIP''] =
          (case NestedField (UnstructuredContent (objects ! i)) [''spec'', ''clusterIP''] of
             Some (JString ip) \<Rightarrow> if ip = ''None'' then Some (JString ''None'') else None
           | v \<Rightarrow> v)"
proof -
  from assms(1) have "list_all2 (\<lambda>ob ob'. prepareResource ob = (ob', None)) objects objects'"
    by (rule prepareResources_list_all2)
  from list_all2_nthD [OF this assms(2)]
  have "prepareResource (objects ! i) = (objects' ! i, None)"
    by simp
  from prepareResource_clusterIP [OF this assms(3)] show ?thesis .
qed

text \<open>
  C4. When the preparation pass returns without error, each object of kind \<open>Service\<close>
  whose \<open>spec.clusterIP\<close>, when present, is a string (as it is in every service the API
  serves) has afterwards: the string \<open>None\<close> in that field when the field held that
  string, and no such field otherwise.
\<close>

theorem prepareResources_Service_clusterIP:
  assumes "prepareResources objects = (objects', None)"
    and "i < length objects"
    and "ObjectKind (objects ! i) = ''Service''"
    and "NestedField (UnstructuredContent (objects ! i)) [''spec'', ''clusterIP''] = None
         \<or> (\<exists>ip. NestedField (UnstructuredContent (objects ! i)) [''spec'', ''clusterIP'']
                    = Some (JString ip))"
  shows "NestedField (UnstructuredContent (objects' ! i)) [''spec'', ''clusterIP''] =
          (if NestedField (UnstructuredContent (objects ! i)) [''spec'', ''clusterIP'']
                = Some (JString ''None'')
           then Some (JString ''None'') else None)"
proof -
  note exact = prepareResources_clusterIP_exact [OF assms(1-3)]
  from assms(4) show ?thesis
  proof
    assume "NestedField (UnstructuredContent (objects ! i)) [''spec'', ''clusterIP''] = None"
    with exact show ?thesis by (simp del: NestedField.simps)
  next
    assume "\<exists>ip. NestedField (UnstructuredContent (objects ! i)) [''spec'', ''clusterIP'']
                    = Some (JString ip)"
    then obtain ip where
      "NestedField (UnstructuredContent (objects ! i)) [''spec'', ''clusterIP'']
         = Some (JString ip)"
      by blast
    with exact show ?thesis by (simp del: NestedField.simps)
  qed
qed

theorem prepareResources_Service_clusterIP_witness:
  "snd (prepareResources [example_service, example_headless_service]) = None
   \<and> ObjectKind ([example_service, example_headless_service] ! 0) = ''Service''
   \<and> ObjectKind ([example_service, example_headless_service] ! 1) = ''Service''
   \<and> NestedField (UnstructuredContent ([example_service, example_headless_service] ! 0))
         [''spec'', ''clusterIP''] = Some (JString ''10.0.0.7'')
   \<and> NestedField (UnstructuredContent ([example_service, example_headless_service] ! 1))
         [''spec'', ''clusterIP''] = Some (JString ''None'')
   \<and> NestedField (UnstructuredContent
         (fst (prepareResources [example_service, example_headless_service]) ! 0))
         [''spec'', ''clusterIP''] = None
   \<and> NestedField (UnstructuredContent
         (fst (prepareResources [example_service, example_headless_service]) ! 1))
         [''spec'', ''clusterIP''] = Some (JString ''None'')"
proof -
  have s: "snd (prepareResources [example_service, example_headless_service]) = None"
    by code_simp
  then have h: "prepareResources [example_service, example_headless_service]
                  = (fst (prepareResources [example_service, example_headless_service]), None)"
    by (simp add: prod_eq_iff)
  have k0: "ObjectKind ([example_service, example_headless_service] ! 0) = ''Service''"
    and k1: "ObjectKind ([example_service, example_headless_service] ! 1) = ''Service''"
    by (simp_all add: example_service_def example_headless_service_def accessor_defs)
  have i0: "NestedField (UnstructuredContent ([example_service, example_headless_service] ! 0))
              [''spec'', ''clusterIP''] = Some (JString ''10.0.0.7'')"
    and i1: "NestedField (UnstructuredContent ([example_service, example_headless_service] ! 1))
              [''spec'', ''clusterIP''] = Some (JString ''None'')"
    by (simp_all add: example_service_def example_headless_service_def)
  have l0: "0 < length [example_service, example_headless_service]"
    and l1: "1 < length [example_service, example_headless_service]"
    by simp_all
  have t0: "NestedField (UnstructuredContent ([example_service, example_headless_service] ! 0))
              [''spec'', ''clusterIP''] = None
         \<or> (\<exists>ip. NestedField (UnstructuredContent ([example_service, example_headless_service] ! 0))
              [''spec'', ''clusterIP''] = Some (JString ip))"
    using i0 by blast
  have t1: "NestedField (UnstructuredContent ([example_service, example_headless_service] ! 1))
              [''spec'', ''clusterIP''] = None
         \<or> (\<exists>ip. NestedField (UnstructuredContent ([example_service, example_headless_service] ! 1))
              [''spec'', ''clusterIP''] = Some (JString ip))"
    using i1 by blast
  have e0: "NestedField (UnstructuredContent
         (fst (prepareResources [example_service, example_headless_service]) ! 0))
         [''spec'', ''clusterIP''] = None"
    using prepareResources_Service_clusterIP [OF h l0 k0 t0, unfolded i0]
    by (simp del: prepareResources.simps NestedField.simps)
  have e1: "NestedField (UnstructuredContent
         (fst (prepareResources [example_service, example_headless_service]) ! 1))
         [''spec'', ''clusterIP''] = Some (JString ''None'')"
    using prepareResources_Service_clusterIP [OF h l1 k1 t1, unfolded i1]
    by (simp del: prepareResources.simps NestedField.simps)
  from s k0 k1 i0 i1 e0 e1 show ?thesis
    by blast
qed

lemma collected_since_refl: "collected_since st st []"
  by (simp add: collected_since_def)

lemma collected_since_trans:
  assumes "collected_since st st' n1" and "collected_since st' st'' n2"
  shows "collected_since st st'' (n1 @ n2)"
  using assms unfolding collected_since_def by auto

lemma collected_since_step:
  assumes "fmlookup resourceMap (GetUID u) = None"
  shows "collected_since (resourceMap, allObjects)
           (fmupd (GetUID u) True resourceMap, allObjects @ [u]) [u]"
  using assms by (auto simp: collected_since_def fmdom'_notI)

lemma objectToBeCollected_not_seen:
  "objectToBeCollected r sel resourceMap u ns = Inr True \<Longrightarrow>
   fmlookup resourceMap (GetUID u) = None"
  by (simp add: objectToBeCollected_def split: if_splits)

lemma GetResources_objects_collected:
  "GetResources_objects r sel ns objects st = Inr st' \<Longrightarrow> \<exists>new. collected_since st st' new"
proof (induction objects arbitrary: st)
  case Nil
  then have "st' = st" by simp
  then show ?case using collected_since_refl [of st] by blast
next
  case (Cons ob objects)
  obtain resourceMap allObjects where st: "st = (resourceMap, allObjects)"
    by (cases st)
  from Cons.prems st obtain u collect where
    ob: "ob = UnstructuredObject u"
    and c: "objectToBeCollected r sel resourceMap u ns = Inr collect"
    by (auto split: runtime_object.splits sum.splits)
  show ?case
  proof (cases collect)
    case True
    with Cons.prems st ob c have
      "GetResources_objects r sel ns objects
         (fmupd (GetUID u) True resourceMap, allObjects @ [u]) = Inr st'"
      by simp
    from Cons.IH [OF this] obtain new where
      "collected_since (fmupd (GetUID u) True resourceMap, allObjects @ [u]) st' new"
      by blast
    moreover from c True have "fmlookup resourceMap (GetUID u) = None"
      by (simp add: objectToBeCollected_not_seen)
    ultimately show ?thesis
      using collected_since_trans [OF collected_since_step] st by blast
  next
    case False
    with Cons.prems st ob c have "GetResources_objects r sel ns objects st = Inr st'"
      by simp
    from Cons.IH [OF this] show ?thesis .
  qed
qed

lemma GetResources_namespaces_collected:
  "GetResources_namespaces r sel gv resource namespaces st = Inr st' \<Longrightarrow>
   \<exists>new. collected_since st st' new"
proof (induction namespaces arbitrary: st)
  case Nil
  then have "st' = st" by simp
  then show ?case using collected_since_refl [of st] by blast
next
  case (Cons ns namespaces)
  from Cons.prems obtain objects st1 where
    "GetResources_objects r sel ns objects st = Inr st1"
    and "GetResources_namespaces r sel gv resource namespaces st1 = Inr st'"
    by (auto split: sum.splits)
  with Cons.IH GetResources_objects_collected show ?case
    using collected_since_trans by blast
qed

lemma GetResources_resources_collected:
  "GetResources_resources r sel namespaces gv resources st = Inr st' \<Longrightarrow>
   \<exists>new. collected_since st st' new"
proof (induction resources arbitrary: st)
  case Nil
  then have "st' = st" by simp
  then show ?case using collected_since_refl [of st] by blast
next
  case (Cons resource resources)
  show ?case
  proof (cases "resourceToBeCollected resource")
    case False
    with Cons show ?thesis by simp
  next
    case True
    with Cons.prems obtain st1 where
      "GetResources_namespaces r sel gv resource namespaces st = Inr st1"
      and "GetResources_resources r sel namespaces gv resources st1 = Inr st'"
      by (auto split: sum.splits)
    with Cons.IH GetResources_namespaces_collected show ?thesis
      using collected_since_trans by blast
  qed
qed

lemma GetResources_group_distinct:
  assumes "GetResources_group r sel namespaces apiGroup allObjects = Inr allObjects'"
  shows "\<exists>new. allObjects' = allObjects @ new \<and> distinct (map GetUID new)"
proof -
  from assms obtain gv where gv: "ParseGroupVersion (GroupVersion apiGroup) = Inr gv"
    by (auto simp: GetResources_group_def split: sum.splits)
  show ?thesis
  proof (cases "gvGroup gv = ''extensions''")
    case True
    with assms gv have "allObjects' = allObjects @ []"
      by (simp add: GetResources_group_def)
    then show ?thesis by (intro exI [of _ "[]"]) simp
  next
    case False
    with assms gv obtain resourceMap where
      "GetResources_resources r sel namespaces gv (APIResources apiGroup) (fmempty, allObjects)
         = Inr (resourceMap, allObjects')"
      by (auto simp: GetResources_group_def split: sum.splits)
    from GetResources_resources_collected [OF this] show ?thesis
      by (auto simp: collected_since_def)
  qed
qed

lemma count_list_distinct_le: "distinct xs \<Longrightarrow> count_list xs x \<le> 1"
  by (induction xs) auto

lemma GetResources_groups_count:
  "GetResources_groups r sel namespaces groups allObjects = Inr allObjects' \<Longrightarrow>
   count_list (map GetUID allObjects') uid
     \<le> count_list (map GetUID allObjects) uid + length groups"
proof (induction groups arbitrary: allObjects)
  case Nil
  then show ?case by simp
next
  case (Cons apiGroup groups)
  from Cons.prems obtain all1 where
    g: "GetResources_group r sel namespaces apiGroup allObjects = Inr all1"
    and rest: "GetResources_groups r sel namespaces groups all1 = Inr allObjects'"
    by (auto split: sum.splits)
  from GetResources_group_distinct [OF g] obtain new where
    "all1 = allObjects @ new" "distinct (map GetUID new)"
    by blast
  then have "count_list (map GetUID all1) uid \<le> count_list (map GetUID allObjects) uid + 1"
    using count_list_distinct_le [of "map GetUID new" uid] by simp
  with Cons.IH [OF rest] show ?case by simp
qed

text \<open>
  C1, as amended. The seen-set is created anew for each group and is shared by all kinds
  and namespaces processed for that group. So one iteration of the loop over the groups
  appends objects whose uids are pairwise distinct, and in the result of \<open>GetResources\<close>
  no uid occurs more often than there are groups. The claim as stated (one seen-set for
  the whole call, no uid twice in the result) fails when two groups list an object with
  the same uid; the code keeps such duplicates apart only by skipping the
  \<open>extensions\<close> group.
\<close>

theorem GetResources_dedup_per_group:
  "(GetResources_group r labelSelectors namespaces apiGroup allObjects = Inr allObjects' \<longrightarrow>
      (\<exists>new. allObjects' = allObjects @ new \<and> distinct (map GetUID new)))
   \<and> (GetResources r namespaces labelSelectors = Inr result \<longrightarrow>
      count_list (map GetUID result) uid \<le> length (Resources r))"
proof (intro conjI impI)
  assume "GetResources_group r labelSelectors namespaces apiGroup allObjects = Inr allObjects'"
  then show "\<exists>new. allObjects' = allObjects @ new \<and> distinct (map GetUID new)"
    by (rule GetResources_group_distinct)
next
  assume "GetResources r namespaces labelSelectors = Inr result"
  then have "GetResources_groups r labelSelectors namespaces (Resources r) [] = Inr result"
    by (simp add: GetResources_def split: option.splits)
  from GetResources_groups_count [OF this, of uid]
  show "count_list (map GetUID result) uid \<le> length (Resources r)"
    by simp
qed

theorem GetResources_dedup_per_group_witness:
  "GetResources_group example_cluster fmempty [''ns1'', ''ns2'']
      (Resources example_cluster ! 0) [] 
     = Inr [example_pvc_object, example_pv_object, example_service]
   \<and> distinct (map GetUID [example_pvc_object, example_pv_object, example_service])
   \<and> GetResources example_cluster [''ns1'', ''ns2''] fmempty
     = Inr [example_pvc_object, example_pv_object, example_service, example_crb_object]
   \<and> count_list (map GetUID [example_pvc_object, example_pv_object, example_service,
                              example_crb_object]) ''uid-pv'' \<le> 3"
proof -
  have g: "GetResources_group example_cluster fmempty [''ns1'', ''ns2'']
      (Resources example_cluster ! 0) [] 
     = Inr [example_pvc_object, example_pv_object, example_service]"
    by code_simp
  have a: "GetResources example_cluster [''ns1'', ''ns2''] fmempty
     = Inr [example_pvc_object, example_pv_object, example_service, example_crb_object]"
    by code_simp
  have l: "length (Resources example_cluster) = 3"
    by (simp add: example_cluster_def)
  from GetResources_dedup_per_group [of example_cluster fmempty "[''ns1'', ''ns2'']"
      "Resources example_cluster ! 0" "[]"
      "[example_pvc_object, example_pv_object, example_service]"
      "[example_pvc_object, example_pv_object, example_service, example_crb_object]"
      "''uid-pv''"] g a l
  show ?thesis by simp
qed

theorem GetResources_dedup_counterexample:
  "GetResources example_two_versions [''ns1''] fmempty
     = Inr [example_deployment ''apps/v1'', example_deployment ''apps/v1beta2'']
   \<and> GetUID (example_deployment ''apps/v1'') = GetUID (example_deployment ''apps/v1beta2'')"
  by code_simp

lemma processed_mono:
  "processed r sel ns uids ob \<Longrightarrow> uids \<subseteq> uids' \<Longrightarrow> processed r sel ns uids' ob"
  unfolding processed_def by blast

lemma listed_and_processed_mono:
  "listed_and_processed r sel gv resource namespaces uids \<Longrightarrow> uids \<subseteq> uids' \<Longrightarrow>
   listed_and_processed r sel gv resource namespaces uids'"
proof -
  assume a: "listed_and_processed r sel gv resource namespaces uids" and sub: "uids \<subseteq> uids'"
  have "\<exists>objects. ListObjects r (listRequest gv resource ns sel) = Inr objects
                  \<and> (\<forall>ob \<in> set objects. processed r sel ns uids' ob)"
    if "ns \<in> set namespaces" for ns
  proof -
    from a that obtain objects where
      l: "ListObjects r (listRequest gv resource ns sel) = Inr objects"
      and p: "\<forall>ob \<in> set objects. processed r sel ns uids ob"
      unfolding listed_and_processed_def by blast
    from p sub have "\<forall>ob \<in> set objects. processed r sel ns uids' ob"
      by (meson processed_mono)
    with l show ?thesis by blast
  qed
  then show ?thesis
    unfolding listed_and_processed_def by blast
qed

lemma collected_since_dom_mono:
  "collected_since st st' new \<Longrightarrow> fmdom' (fst st) \<subseteq> fmdom' (fst st')"
  by (auto simp: collected_since_def)

lemma objectToBeCollected_unseen:
  "fmlookup resourceMap (GetUID u) = None \<Longrightarrow>
   objectToBeCollected r sel resourceMap u ns = objectToBeCollected r sel fmempty u ns"
  by (simp add: objectToBeCollected_def)

lemma GetResources_objects_processed:
  "GetResources_objects r sel ns objects st = Inr st' \<Longrightarrow>
   \<forall>ob \<in> set objects. processed r sel ns (fmdom' (fst st')) ob"
proof (induction objects arbitrary: st)
  case Nil
  then show ?case by simp
next
  case (Cons ob objects)
  obtain resourceMap allObjects where st: "st = (resourceMap, allObjects)"
    by (cases st)
  from Cons.prems st obtain u collect where
    ob: "ob = UnstructuredObject u"
    and c: "objectToBeCollected r sel resourceMap u ns = Inr collect"
    by (auto split: runtime_object.splits sum.splits)
  define st1 where "st1 = (if collect then (fmupd (GetUID u) True resourceMap, allObjects @ [u])
                           else (resourceMap, allObjects))"
  from Cons.prems st ob c have rest: "GetResources_objects r sel ns objects st1 = Inr st'"
    by (cases collect) (simp_all add: st1_def)
  from Cons.IH [OF rest] have tail: "\<forall>ob \<in> set objects. processed r sel ns (fmdom' (fst st')) ob" .
  from GetResources_objects_collected [OF rest] obtain new where
    cs: "collected_since st1 st' new"
    by blast
  from collected_since_dom_mono [OF cs] have mono: "fmdom' (fst st1) \<subseteq> fmdom' (fst st')" .
  have "processed r sel ns (fmdom' (fst st')) ob"
  proof (cases "fmlookup resourceMap (GetUID u)")
    case None
    from objectToBeCollected_unseen [OF None, of r sel ns] c
    have "objectToBeCollected r sel fmempty u ns = Inr collect"
      by simp
    with ob show ?thesis
      unfolding processed_def by blast
  next
    case (Some b)
    then have "GetUID u \<in> fmdom' resourceMap"
      by (rule fmdom'I)
    moreover have "fmdom' resourceMap \<subseteq> fmdom' (fst st1)"
      by (cases collect) (auto simp: st1_def)
    ultimately have "GetUID u \<in> fmdom' (fst st')"
      using mono by blast
    with ob show ?thesis
      unfolding processed_def by blast
  qed
  with tail show ?case by simp
qed

lemma GetResources_namespaces_processed:
  "GetResources_namespaces r sel gv resource namespaces st = Inr st' \<Longrightarrow>
   listed_and_processed r sel gv resource namespaces (fmdom' (fst st'))"
proof (induction namespaces arbitrary: st)
  case Nil
  then show ?case by (simp add: listed_and_processed_def)
next
  case (Cons ns namespaces)
  from Cons.prems obtain objects st1 where
    l: "ListObjects r (listRequest gv resource ns sel) = Inr objects"
    and o: "GetResources_objects r sel ns objects st = Inr st1"
    and rest: "GetResources_namespaces r sel gv resource namespaces st1 = Inr st'"
    by (auto split: sum.splits)
  from GetResources_namespaces_collected [OF rest] obtain new where
    cs: "collected_since st1 st' new"
    by blast
  from collected_since_dom_mono [OF cs] have mono: "fmdom' (fst st1) \<subseteq> fmdom' (fst st')" .
  from GetResources_objects_processed [OF o] mono
  have "\<forall>ob \<in> set objects. processed r sel ns (fmdom' (fst st')) ob"
    by (meson processed_mono)
  with l Cons.IH [OF rest] show ?case
    by (simp add: listed_and_processed_def)
qed

lemma GetResources_resources_processed:
  "GetResources_resources r sel namespaces gv resources st = Inr st' \<Longrightarrow>
   \<forall>resource \<in> set resources. resourceToBeCollected resource \<longrightarrow>
      listed_and_processed r sel gv resource namespaces (fmdom' (fst st'))"
proof (induction resources arbitrary: st)
  case Nil
  then show ?case by simp
next
  case (Cons resource resources)
  show ?case
  proof (cases "resourceToBeCollected resource")
    case False
    with Cons show ?thesis by simp
  next
    case True
    with Cons.prems obtain st1 where
      n: "GetResources_namespaces r sel gv resource namespaces st = Inr st1"
      and rest: "GetResources_resources r sel namespaces gv resources st1 = Inr st'"
      by (auto split: sum.splits)
    from GetResources_resources_collected [OF rest] obtain new where
      cs: "collected_since st1 st' new"
      by blast
    from collected_since_dom_mono [OF cs] have mono: "fmdom' (fst st1) \<subseteq> fmdom' (fst st')" .
    from GetResources_namespaces_processed [OF n] mono
    have "listed_and_processed r sel gv resource namespaces (fmdom' (fst st'))"
      by (rule listed_and_processed_mono)
    with Cons.IH [OF rest] show ?thesis by simp
  qed
qed

lemma group_processed_mono:
  "group_processed r sel namespaces uids apiGroup \<Longrightarrow> uids \<subseteq> uids' \<Longrightarrow>
   group_processed r sel namespaces uids' apiGroup"
proof -
  assume a: "group_processed r sel namespaces uids apiGroup" and sub: "uids \<subseteq> uids'"
  from a obtain gv where
    gv: "ParseGroupVersion (GroupVersion apiGroup) = Inr gv"
    and l: "gvGroup gv \<noteq> ''extensions'' \<longrightarrow>
             (\<forall>resource \<in> set (APIResources apiGroup). resourceToBeCollected resource \<longrightarrow>
                listed_and_processed r sel gv resource namespaces uids)"
    unfolding group_processed_def by blast
  from l sub have "gvGroup gv \<noteq> ''extensions'' \<longrightarrow>
             (\<forall>resource \<in> set (APIResources apiGroup). resourceToBeCollected resource \<longrightarrow>
                listed_and_processed r sel gv resource namespaces uids')"
    by (meson listed_and_processed_mono)
  with gv show ?thesis
    unfolding group_processed_def by blast
qed

lemma GetResources_group_processed:
  assumes "GetResources_group r sel namespaces apiGroup allObjects = Inr allObjects'"
  shows "group_processed r sel namespaces (GetUID ` set allObjects') apiGroup"
proof -
  from assms obtain gv where gv: "ParseGroupVersion (GroupVersion apiGroup) = Inr gv"
    by (auto simp: GetResources_group_def split: sum.splits)
  show ?thesis
  proof (cases "gvGroup gv = ''extensions''")
    case True
    with gv show ?thesis by (simp add: group_processed_def)
  next
    case False
    with assms gv obtain resourceMap where
      res: "GetResources_resources r sel namespaces gv (APIResources apiGroup) (fmempty, allObjects)
         = Inr (resourceMap, allObjects')"
      by (auto simp: GetResources_group_def split: sum.splits)
    from GetResources_resources_collected [OF res]
    have sub: "fmdom' resourceMap \<subseteq> GetUID ` set allObjects'"
      by (auto simp: collected_since_def)
    have "listed_and_processed r sel gv resource namespaces (GetUID ` set allObjects')"
      if "resource \<in> set (APIResources apiGroup)" "resourceToBeCollected resource"
      for resource
    proof -
      from GetResources_resources_processed [OF res] that
      have "listed_and_processed r sel gv resource namespaces (fmdom' resourceMap)"
        by simp
      from listed_and_processed_mono [OF this sub] show ?thesis .
    qed
    with gv show ?thesis
      unfolding group_processed_def by blast
  qed
qed

lemma GetResources_groups_processed:
  "GetResources_groups r sel namespaces groups allObjects = Inr allObjects' \<Longrightarrow>
   set allObjects \<subseteq> set allObjects'
   \<and> (\<forall>apiGroup \<in> set groups. group_processed r sel namespaces (GetUID ` set allObjects') apiGroup)"
proof (induction groups arbitrary: allObjects)
  case Nil
  then show ?case by simp
next
  case (Cons apiGroup groups)
  from Cons.prems obtain all1 where
    g: "GetResources_group r sel namespaces apiGroup allObjects = Inr all1"
    and rest: "GetResources_groups r sel namespaces groups all1 = Inr allObjects'"
    by (auto split: sum.splits)
  from Cons.IH [OF rest] have
    sub: "set all1 \<subseteq> set allObjects'"
    and tail: "\<forall>apiGroup \<in> set groups.
                 group_processed r sel namespaces (GetUID ` set allObjects') apiGroup"
    by blast+
  from GetResources_group_distinct [OF g] have "set allObjects \<subseteq> set all1"
    by auto
  moreover from sub have "GetUID ` set all1 \<subseteq> GetUID ` set allObjects'"
    by blast
  from group_processed_mono [OF GetResources_group_processed [OF g] this]
  have "group_processed r sel namespaces (GetUID ` set allObjects') apiGroup" .
  ultimately show ?case using sub tail by auto
qed

lemma objectToBeCollected_error_unseen:
  assumes "objectToBeCollected r sel resourceMap u ns = Inl err"
  shows "objectToBeCollected r sel fmempty u ns = Inl err"
proof -
  from assms have "fmlookup resourceMap (GetUID u) = None"
    by (simp add: objectToBeCollected_def split: if_splits)
  from objectToBeCollected_unseen [OF this, of r sel ns] assms show ?thesis
    by simp
qed

lemma GetResources_objects_error:
  "GetResources_objects r sel ns objects st = Inl e \<Longrightarrow>
   list_ex (object_failure r sel ns e) objects"
proof (induction objects arbitrary: st)
  case Nil
  then show ?case by simp
next
  case (Cons ob objects)
  obtain resourceMap allObjects where st: "st = (resourceMap, allObjects)"
    by (cases st)
  show ?case
  proof (cases ob)
    case (TypedObject t)
    with Cons.prems st have "e = ErrorCasting ob" by simp
    with TypedObject show ?thesis by (simp add: object_failure_def)
  next
    case (UnstructuredObject u)
    show ?thesis
    proof (cases "objectToBeCollected r sel resourceMap u ns")
      case (Inl err)
      with Cons.prems st UnstructuredObject have "e = ErrorProcessingObject u err" by simp
      with objectToBeCollected_error_unseen [OF Inl] UnstructuredObject show ?thesis
        by (simp add: object_failure_def)
    next
      case (Inr collect)
      with Cons.prems st UnstructuredObject obtain st1 where
        "GetResources_objects r sel ns objects st1 = Inl e"
        by (cases collect) auto
      from Cons.IH [OF this] show ?thesis by simp
    qed
  qed
qed

lemma GetResources_namespaces_error:
  "GetResources_namespaces r sel gv resource namespaces st = Inl e \<Longrightarrow>
   list_ex (\<lambda>ns. list_failure r sel gv resource ns e) namespaces"
proof (induction namespaces arbitrary: st)
  case Nil
  then show ?case by simp
next
  case (Cons ns namespaces)
  show ?case
  proof (cases "ListObjects r (listRequest gv resource ns sel)")
    case (Inl err)
    with Cons.prems have "e = err" by simp
    with Inl show ?thesis by (simp add: list_failure_def)
  next
    case (Inr objects)
    show ?thesis
    proof (cases "GetResources_objects r sel ns objects st")
      case (Inl err)
      with Cons.prems Inr have "e = err" by simp
      with Inl have "list_ex (object_failure r sel ns e) objects"
        by (simp add: GetResources_objects_error)
      with Inr show ?thesis by (simp add: list_failure_def)
    next
      case (Inr st1)
      with Cons.prems \<open>ListObjects r (listRequest gv resource ns sel) = Inr objects\<close>
      have "GetResources_namespaces r sel gv resource namespaces st1 = Inl e"
        by simp
      from Cons.IH [OF this] show ?thesis by simp
    qed
  qed
qed

lemma GetResources_resources_error:
  "GetResources_resources r sel namespaces gv resources st = Inl e \<Longrightarrow>
   list_ex (\<lambda>resource. resourceToBeCollected resource
              \<and> list_ex (\<lambda>ns. list_failure r sel gv resource ns e) namespaces) resources"
proof (induction resources arbitrary: st)
  case Nil
  then show ?case by simp
next
  case (Cons resource resources)
  show ?case
  proof (cases "resourceToBeCollected resource")
    case False
    with Cons show ?thesis by simp
  next
    case True
    show ?thesis
    proof (cases "GetResources_namespaces r sel gv resource namespaces st")
      case (Inl err)
      with Cons.prems True have "e = err" by simp
      with Inl True show ?thesis
        by (simp add: GetResources_namespaces_error)
    next
      case (Inr st1)
      with Cons.prems True
      have "GetResources_resources r sel namespaces gv resources st1 = Inl e"
        by simp
      from Cons.IH [OF this] show ?thesis by simp
    qed
  qed
qed

lemma GetResources_group_error:
  assumes "GetResources_group r sel namespaces apiGroup allObjects = Inl e"
  shows "group_failure r sel namespaces e apiGroup"
proof (cases "ParseGroupVersion (GroupVersion apiGroup)")
  case (Inl err)
  with assms have "e = err" by (simp add: GetResources_group_def)
  with Inl show ?thesis by (simp add: group_failure_def)
next
  case (Inr gv)
  with assms have ne: "gvGroup gv \<noteq> ''extensions''"
    by (auto simp: GetResources_group_def)
  with assms Inr have
    "GetResources_resources r sel namespaces gv (APIResources apiGroup) (fmempty, allObjects)
       = Inl e"
    by (auto simp: GetResources_group_def split: sum.splits)
  from GetResources_resources_error [OF this] Inr ne show ?thesis
    by (simp add: group_failure_def)
qed

lemma GetResources_groups_error:
  "GetResources_groups r sel namespaces groups allObjects = Inl e \<Longrightarrow>
   list_ex (group_failure r sel namespaces e) groups"
proof (induction groups arbitrary: allObjects)
  case Nil
  then show ?case by simp
next
  case (Cons apiGroup groups)
  show ?case
  proof (cases "GetResources_group r sel namespaces apiGroup allObjects")
    case (Inl err)
    with Cons.prems have "e = err" by simp
    with Inl show ?thesis by (simp add: GetResources_group_error)
  next
    case (Inr all1)
    with Cons.prems have "GetResources_groups r sel namespaces groups all1 = Inl e"
      by simp
    from Cons.IH [OF this] show ?thesis by simp
  qed
qed

lemma GetResources_error:
  assumes "GetResources r namespaces sel = Inl e"
  shows "Refresh r = Some e \<or> list_ex (group_failure r sel namespaces e) (Resources r)"
proof (cases "Refresh r")
  case None
  with assms have "GetResources_groups r sel namespaces (Resources r) [] = Inl e"
    by (simp add: GetResources_def)
  from GetResources_groups_error [OF this] show ?thesis by simp
next
  case (Some err)
  with assms show ?thesis by (simp add: GetResources_def)
qed

lemma GetResources_objects_append:
  "GetResources_objects r sel ns (os1 @ os2) st =
     (case GetResources_objects r sel ns os1 st of
        Inl e \<Rightarrow> Inl e
      | Inr st1 \<Rightarrow> GetResources_objects r sel ns os2 st1)"
proof (induction os1 arbitrary: st)
  case Nil
  show ?case by simp
next
  case (Cons ob os1)
  obtain resourceMap allObjects where st: "st = (resourceMap, allObjects)"
    by (cases st)
  show ?case
    unfolding st
    by (simp add: Cons.IH split: runtime_object.splits sum.splits)
qed

lemma GetResources_namespaces_append:
  "GetResources_namespaces r sel gv resource (ns1 @ ns2) st =
     (case GetResources_namespaces r sel gv resource ns1 st of
        Inl e \<Rightarrow> Inl e
      | Inr st1 \<Rightarrow> GetResources_namespaces r sel gv resource ns2 st1)"
  by (induction ns1 arbitrary: st) (simp_all split: sum.splits)

lemma GetResources_resources_append:
  "GetResources_resources r sel namespaces gv (rs1 @ rs2) st =
     (case GetResources_resources r sel namespaces gv rs1 st of
        Inl e \<Rightarrow> Inl e
      | Inr st1 \<Rightarrow> GetResources_resources r sel namespaces gv rs2 st1)"
  by (induction rs1 arbitrary: st) (simp_all split: sum.splits)

lemma GetResources_groups_append:
  "GetResources_groups r sel namespaces (gs1 @ gs2) allObjects =
     (case GetResources_groups r sel namespaces gs1 allObjects of
        Inl e \<Rightarrow> Inl e
      | Inr all1 \<Rightarrow> GetResources_groups r sel namespaces gs2 all1)"
  by (induction gs1 arbitrary: allObjects) (simp_all split: sum.splits)

lemma GetResources_first_failing_group:
  assumes "Refresh r = None"
    and "Resources r = gs1 @ apiGroup # gs2"
    and "GetResources_groups r sel namespaces gs1 [] = Inr all1"
    and "GetResources_group r sel namespaces apiGroup all1 = Inl e"
  shows "GetResources r namespaces sel = Inl e"
  using assms by (simp add: GetResources_def GetResources_groups_append)

lemma GetResources_group_first_failing_resource:
  assumes "ParseGroupVersion (GroupVersion apiGroup) = Inr gv"
    and "gvGroup gv \<noteq> ''extensions''"
    and "APIResources apiGroup = rs1 @ resource # rs2"
    and "GetResources_resources r sel namespaces gv rs1 (fmempty, all1) = Inr st1"
    and "resourceToBeCollected resource"
    and "GetResources_namespaces r sel gv resource namespaces st1 = Inl e"
  shows "GetResources_group r sel namespaces apiGroup all1 = Inl e"
  using assms by (simp add: GetResources_group_def GetResources_resources_append)

lemma GetResources_namespaces_first_failing_list:
  assumes "namespaces = ns1 @ ns # ns2"
    and "GetResources_namespaces r sel gv resource ns1 st1 = Inr st2"
    and "ListObjects r (listRequest gv resource ns sel) = Inl e"
  shows "GetResources_namespaces r sel gv resource namespaces st1 = Inl e"
  using assms by (simp add: GetResources_namespaces_append)

lemma GetResources_namespaces_first_failing_object:
  assumes "namespaces = ns1 @ ns # ns2"
    and "GetResources_namespaces r sel gv resource ns1 st1 = Inr st2"
    and "ListObjects r (listRequest gv resource ns sel) = Inr (os1 @ ob # os2)"
    and "GetResources_objects r sel ns os1 st2 = Inr (resourceMap, allObjects)"
    and "GetResources_objects r sel ns [ob] (resourceMap, allObjects) = Inl e"
  shows "GetResources_namespaces r sel gv resource namespaces st1 = Inl e"
proof -
  from assms(4,5) have "GetResources_objects r sel ns (os1 @ ob # os2) st2 = Inl e"
    by (simp add: GetResources_objects_append [of r sel ns os1 "ob # os2"]
        split: runtime_object.splits sum.splits if_splits)
  with assms(1-3) show ?thesis
    by (simp add: GetResources_namespaces_append)
qed

lemma GetResources_objects_first_failure:
  "GetResources_objects r sel ns objects st = Inl e \<Longrightarrow>
   \<exists>os1 ob os2 resourceMap allObjects.
      objects = os1 @ ob # os2
      \<and> GetResources_objects r sel ns os1 st = Inr (resourceMap, allObjects)
      \<and> ((\<exists>t. ob = TypedObject t \<and> e = ErrorCasting ob)
           \<or> (\<exists>u err. ob = UnstructuredObject u
                  \<and> objectToBeCollected r sel resourceMap u ns = Inl err
                  \<and> e = ErrorProcessingObject u err))"
proof (induction objects arbitrary: st)
  case Nil
  then show ?case by simp
next
  case (Cons ob objects)
  obtain resourceMap allObjects where st: "st = (resourceMap, allObjects)"
    by (cases st)
  have here: ?case
    if "(\<exists>t. ob = TypedObject t \<and> e = ErrorCasting ob)
         \<or> (\<exists>u err. ob = UnstructuredObject u
                \<and> objectToBeCollected r sel resourceMap u ns = Inl err
                \<and> e = ErrorProcessingObject u err)"
  proof -
    have "ob # objects = [] @ ob # objects"
      and "GetResources_objects r sel ns [] st = Inr (resourceMap, allObjects)"
      by (simp_all add: st)
    with that show ?thesis by blast
  qed
  show ?case
  proof (cases ob)
    case (TypedObject t)
    with Cons.prems st have "e = ErrorCasting ob" by simp
    with TypedObject here show ?thesis by blast
  next
    case (UnstructuredObject u)
    show ?thesis
    proof (cases "objectToBeCollected r sel resourceMap u ns")
      case (Inl err)
      with Cons.prems st UnstructuredObject have "e = ErrorProcessingObject u err" by simp
      with UnstructuredObject Inl here show ?thesis by blast
    next
      case (Inr collect)
      define st1 where "st1 = (if collect then (fmupd (GetUID u) True resourceMap, allObjects @ [u])
                               else (resourceMap, allObjects))"
      from Cons.prems st UnstructuredObject Inr
      have step: "\<And>objs. GetResources_objects r sel ns (ob # objs) st
                     = GetResources_objects r sel ns objs st1"
        by (cases collect) (simp_all add: st1_def)
      with Cons.prems have "GetResources_objects r sel ns objects st1 = Inl e"
        by simp
      from Cons.IH [OF this] obtain os1 ob' os2 resourceMap' allObjects' where
        d: "objects = os1 @ ob' # os2"
        and p: "GetResources_objects r sel ns os1 st1 = Inr (resourceMap', allObjects')"
        and f: "(\<exists>t. ob' = TypedObject t \<and> e = ErrorCasting ob')
           \<or> (\<exists>u err. ob' = UnstructuredObject u
                  \<and> objectToBeCollected r sel resourceMap' u ns = Inl err
                  \<and> e = ErrorProcessingObject u err)"
        by blast
      from d have "ob # objects = (ob # os1) @ ob' # os2" by simp
      moreover from p step
      have "GetResources_objects r sel ns (ob # os1) st = Inr (resourceMap', allObjects')"
        by simp
      ultimately show ?thesis using f by blast
    qed
  qed
qed

lemma GetResources_namespaces_first_failure:
  "GetResources_namespaces r sel gv resource namespaces st = Inl e \<Longrightarrow>
   \<exists>ns1 ns ns2 st2.
      namespaces = ns1 @ ns # ns2
      \<and> GetResources_namespaces r sel gv resource ns1 st = Inr st2
      \<and> (ListObjects r (listRequest gv resource ns sel) = Inl e
           \<or> (\<exists>objects. ListObjects r (listRequest gv resource ns sel) = Inr objects
                  \<and> GetResources_objects r sel ns objects st2 = Inl e))"
proof (induction namespaces arbitrary: st)
  case Nil
  then show ?case by simp
next
  case (Cons ns namespaces)
  have here: ?case
    if "ListObjects r (listRequest gv resource ns sel) = Inl e
           \<or> (\<exists>objects. ListObjects r (listRequest gv resource ns sel) = Inr objects
                  \<and> GetResources_objects r sel ns objects st = Inl e)"
  proof -
    have "ns # namespaces = [] @ ns # namespaces"
      and "GetResources_namespaces r sel gv resource [] st = Inr st"
      by simp_all
    with that show ?thesis by blast
  qed
  show ?case
  proof (cases "ListObjects r (listRequest gv resource ns sel)")
    case (Inl err)
    with Cons.prems have "e = err" by simp
    with Inl here show ?thesis by blast
  next
    case list: (Inr objects)
    show ?thesis
    proof (cases "GetResources_objects r sel ns objects st")
      case (Inl err)
      with Cons.prems list have "e = err" by simp
      with Inl list here show ?thesis by blast
    next
      case (Inr st1)
      with list have step: "\<And>nss. GetResources_namespaces r sel gv resource (ns # nss) st
                     = GetResources_namespaces r sel gv resource nss st1"
        by simp
      with Cons.prems have "GetResources_namespaces r sel gv resource namespaces st1 = Inl e"
        by simp
      from Cons.IH [OF this] obtain ns1 ns' ns2 st2 where
        d: "namespaces = ns1 @ ns' # ns2"
        and p: "GetResources_namespaces r sel gv resource ns1 st1 = Inr st2"
        and f: "ListObjects r (listRequest gv resource ns' sel) = Inl e
           \<or> (\<exists>objects. ListObjects r (listRequest gv resource ns' sel) = Inr objects
                  \<and> GetResources_objects r sel ns' objects st2 = Inl e)"
        by blast
      from d have "ns # namespaces = (ns # ns1) @ ns' # ns2" by simp
      moreover from p step
      have "GetResources_namespaces r sel gv resource (ns # ns1) st = Inr st2"
        by simp
      ultimately show ?thesis using f by blast
    qed
  qed
qed

lemma GetResources_resources_first_failure:
  "GetResources_resources r sel namespaces gv resources st = Inl e \<Longrightarrow>
   \<exists>rs1 resource rs2 st1.
      resources = rs1 @ resource # rs2
      \<and> GetResources_resources r sel namespaces gv rs1 st = Inr st1
      \<and> resourceToBeCollected resource
      \<and> GetResources_namespaces r sel gv resource namespaces st1 = Inl e"
proof (induction resources arbitrary: st)
  case Nil
  then show ?case by simp
next
  case (Cons resource resources)
  define next_state where "next_state =
     (if resourceToBeCollected resource
      then GetResources_namespaces r sel gv resource namespaces st else Inr st)"
  show ?case
  proof (cases next_state)
    case (Inl err)
    then have c: "resourceToBeCollected resource"
      and n: "GetResources_namespaces r sel gv resource namespaces st = Inl err"
      by (auto simp: next_state_def split: if_splits)
    with Cons.prems have "e = err" by simp
    moreover have "resource # resources = [] @ resource # resources"
      and "GetResources_resources r sel namespaces gv [] st = Inr st"
      by simp_all
    ultimately show ?thesis using c n by blast
  next
    case (Inr st1)
    then have step: "\<And>rs. GetResources_resources r sel namespaces gv (resource # rs) st
                     = GetResources_resources r sel namespaces gv rs st1"
      by (auto simp: next_state_def split: if_splits)
    with Cons.prems have "GetResources_resources r sel namespaces gv resources st1 = Inl e"
      by simp
    from Cons.IH [OF this] obtain rs1 resource' rs2 st2 where
      d: "resources = rs1 @ resource' # rs2"
      and p: "GetResources_resources r sel namespaces gv rs1 st1 = Inr st2"
      and f: "resourceToBeCollected resource'"
        "GetResources_namespaces r sel gv resource' namespaces st2 = Inl e"
      by blast
    from d have "resource # resources = (resource # rs1) @ resource' # rs2" by simp
    moreover from p step
    have "GetResources_resources r sel namespaces gv (resource # rs1) st = Inr st2"
      by simp
    ultimately show ?thesis using f by blast
  qed
qed

lemma GetResources_groups_first_failure:
  "GetResources_groups r sel namespaces groups allObjects = Inl e \<Longrightarrow>
   \<exists>gs1 apiGroup gs2 all1.
      groups = gs1 @ apiGroup # gs2
      \<and> GetResources_groups r sel namespaces gs1 allObjects = Inr all1
      \<and> GetResources_group r sel namespaces apiGroup all1 = Inl e"
proof (induction groups arbitrary: allObjects)
  case Nil
  then show ?case by simp
next
  case (Cons apiGroup groups)
  show ?case
  proof (cases "GetResources_group r sel namespaces apiGroup allObjects")
    case (Inl err)
    with Cons.prems have "e = err" by simp
    moreover have "apiGroup # groups = [] @ apiGroup # groups"
      and "GetResources_groups r sel namespaces [] allObjects = Inr allObjects"
      by simp_all
    ultimately show ?thesis using Inl by blast
  next
    case (Inr all1)
    then have step: "\<And>gs. GetResources_groups r sel namespaces (apiGroup # gs) allObjects
                     = GetResources_groups r sel namespaces gs all1"
      by simp
    with Cons.prems have "GetResources_groups r sel namespaces groups all1 = Inl e"
      by simp
    from Cons.IH [OF this] obtain gs1 apiGroup' gs2 all2 where
      d: "groups = gs1 @ apiGroup' # gs2"
      and p: "GetResources_groups r sel namespaces gs1 all1 = Inr all2"
      and f: "GetResources_group r sel namespaces apiGroup' all2 = Inl e"
      by blast
    from d have "apiGroup # groups = (apiGroup # gs1) @ apiGroup' # gs2" by simp
    moreover from p step
    have "GetResources_groups r sel namespaces (apiGroup # gs1) allObjects = Inr all2"
      by simp
    ultimately show ?thesis using f by blast
  qed
qed

lemma GetResources_group_failure_cases:
  assumes "GetResources_group r sel namespaces apiGroup all1 = Inl e"
  shows "ParseGroupVersion (GroupVersion apiGroup) = Inl e
     \<or> (\<exists>gv. ParseGroupVersion (GroupVersion apiGroup) = Inr gv
            \<and> gvGroup gv \<noteq> ''extensions''
            \<and> GetResources_resources r sel namespaces gv (APIResources apiGroup)
                 (fmempty, all1) = Inl e)"
proof (cases "ParseGroupVersion (GroupVersion apiGroup)")
  case (Inl err)
  with assms show ?thesis by (simp add: GetResources_group_def)
next
  case (Inr gv)
  with assms have "gvGroup gv \<noteq> ''extensions''"
    by (auto simp: GetResources_group_def)
  with assms Inr show ?thesis
    by (auto simp: GetResources_group_def split: sum.splits)
qed

lemma GetResources_namespaces_error_iff:
  "GetResources_namespaces r sel gv resource namespaces st1 = Inl e \<longleftrightarrow>
     (\<exists>ns1 ns ns2 st2.
        namespaces = ns1 @ ns # ns2
        \<and> GetResources_namespaces r sel gv resource ns1 st1 = Inr st2
        \<and> (ListObjects r (listRequest gv resource ns sel) = Inl e
             \<or> (\<exists>os1 ob os2 resourceMap allObjects.
            ListObjects r (listRequest gv resource ns sel) = Inr (os1 @ ob # os2)
            \<and> GetResources_objects r sel ns os1 st2 = Inr (resourceMap, allObjects)
            \<and> ((\<exists>t. ob = TypedObject t \<and> e = ErrorCasting ob)
                 \<or> (\<exists>u err. ob = UnstructuredObject u
                        \<and> objectToBeCollected r sel resourceMap u ns = Inl err
                        \<and> e = ErrorProcessingObject u err)))))"
proof
  assume "GetResources_namespaces r sel gv resource namespaces st1 = Inl e"
  from GetResources_namespaces_first_failure [OF this] obtain ns1 ns ns2 st2 where
    nd: "namespaces = ns1 @ ns # ns2"
    and np: "GetResources_namespaces r sel gv resource ns1 st1 = Inr st2"
    and lf: "ListObjects r (listRequest gv resource ns sel) = Inl e
       \<or> (\<exists>objects. ListObjects r (listRequest gv resource ns sel) = Inr objects
              \<and> GetResources_objects r sel ns objects st2 = Inl e)"
    by blast
  have "ListObjects r (listRequest gv resource ns sel) = Inl e
             \<or> (\<exists>os1 ob os2 resourceMap allObjects.
            ListObjects r (listRequest gv resource ns sel) = Inr (os1 @ ob # os2)
            \<and> GetResources_objects r sel ns os1 st2 = Inr (resourceMap, allObjects)
            \<and> ((\<exists>t. ob = TypedObject t \<and> e = ErrorCasting ob)
                 \<or> (\<exists>u err. ob = UnstructuredObject u
                        \<and> objectToBeCollected r sel resourceMap u ns = Inl err
                        \<and> e = ErrorProcessingObject u err)))"
    using lf
  proof
    assume "ListObjects r (listRequest gv resource ns sel) = Inl e"
    then show ?thesis by (rule disjI1)
  next
    assume "\<exists>objects. ListObjects r (listRequest gv resource ns sel) = Inr objects
              \<and> GetResources_objects r sel ns objects st2 = Inl e"
    then obtain objects where
      lo: "ListObjects r (listRequest gv resource ns sel) = Inr objects"
      and ofl: "GetResources_objects r sel ns objects st2 = Inl e"
      by blast
    from GetResources_objects_first_failure [OF ofl] obtain os1 ob os2 resourceMap allObjects
      where "objects = os1 @ ob # os2"
        and "GetResources_objects r sel ns os1 st2 = Inr (resourceMap, allObjects)"
        and "(\<exists>t. ob = TypedObject t \<and> e = ErrorCasting ob)
                 \<or> (\<exists>u err. ob = UnstructuredObject u
                        \<and> objectToBeCollected r sel resourceMap u ns = Inl err
                        \<and> e = ErrorProcessingObject u err)"
      by blast
    with lo have "(\<exists>os1 ob os2 resourceMap allObjects.
            ListObjects r (listRequest gv resource ns sel) = Inr (os1 @ ob # os2)
            \<and> GetResources_objects r sel ns os1 st2 = Inr (resourceMap, allObjects)
            \<and> ((\<exists>t. ob = TypedObject t \<and> e = ErrorCasting ob)
                 \<or> (\<exists>u err. ob = UnstructuredObject u
                        \<and> objectToBeCollected r sel resourceMap u ns = Inl err
                        \<and> e = ErrorProcessingObject u err)))"
      by (intro exI [of _ os1] exI [of _ ob] exI [of _ os2] exI [of _ resourceMap]
          exI [of _ allObjects] conjI) simp_all
    then show ?thesis by (rule disjI2)
  qed
  with nd np show "(\<exists>ns1 ns ns2 st2.
        namespaces = ns1 @ ns # ns2
        \<and> GetResources_namespaces r sel gv resource ns1 st1 = Inr st2
        \<and> (ListObjects r (listRequest gv resource ns sel) = Inl e
             \<or> (\<exists>os1 ob os2 resourceMap allObjects.
            ListObjects r (listRequest gv resource ns sel) = Inr (os1 @ ob # os2)
            \<and> GetResources_objects r sel ns os1 st2 = Inr (resourceMap, allObjects)
            \<and> ((\<exists>t. ob = TypedObject t \<and> e = ErrorCasting ob)
                 \<or> (\<exists>u err. ob = UnstructuredObject u
                        \<and> objectToBeCollected r sel resourceMap u ns = Inl err
                        \<and> e = ErrorProcessingObject u err)))))"
    by (intro exI [of _ ns1] exI [of _ ns] exI [of _ ns2] exI [of _ st2] conjI)
next
  assume "(\<exists>ns1 ns ns2 st2.
        namespaces = ns1 @ ns # ns2
        \<and> GetResources_namespaces r sel gv resource ns1 st1 = Inr st2
        \<and> (ListObjects r (listRequest gv resource ns sel) = Inl e
             \<or> (\<exists>os1 ob os2 resourceMap allObjects.
            ListObjects r (listRequest gv resource ns sel) = Inr (os1 @ ob # os2)
            \<and> GetResources_objects r sel ns os1 st2 = Inr (resourceMap, allObjects)
            \<and> ((\<exists>t. ob = TypedObject t \<and> e = ErrorCasting ob)
                 \<or> (\<exists>u err. ob = UnstructuredObject u
                        \<and> objectToBeCollected r sel resourceMap u ns = Inl err
                        \<and> e = ErrorProcessingObject u err)))))"
  then obtain ns1 ns ns2 st2 where
    nd: "namespaces = ns1 @ ns # ns2"
    and np: "GetResources_namespaces r sel gv resource ns1 st1 = Inr st2"
    and lf: "ListObjects r (listRequest gv resource ns sel) = Inl e
             \<or> (\<exists>os1 ob os2 resourceMap allObjects.
            ListObjects r (listRequest gv resource ns sel) = Inr (os1 @ ob # os2)
            \<and> GetResources_objects r sel ns os1 st2 = Inr (resourceMap, allObjects)
            \<and> ((\<exists>t. ob = TypedObject t \<and> e = ErrorCasting ob)
                 \<or> (\<exists>u err. ob = UnstructuredObject u
                        \<and> objectToBeCollected r sel resourceMap u ns = Inl err
                        \<and> e = ErrorProcessingObject u err)))"
    by (elim exE conjE)
  from lf show "GetResources_namespaces r sel gv resource namespaces st1 = Inl e"
  proof
    assume "ListObjects r (listRequest gv resource ns sel) = Inl e"
    from GetResources_namespaces_first_failing_list [OF nd np this] show ?thesis .
  next
    assume "(\<exists>os1 ob os2 resourceMap allObjects.
            ListObjects r (listRequest gv resource ns sel) = Inr (os1 @ ob # os2)
            \<and> GetResources_objects r sel ns os1 st2 = Inr (resourceMap, allObjects)
            \<and> ((\<exists>t. ob = TypedObject t \<and> e = ErrorCasting ob)
                 \<or> (\<exists>u err. ob = UnstructuredObject u
                        \<and> objectToBeCollected r sel resourceMap u ns = Inl err
                        \<and> e = ErrorProcessingObject u err)))"
    then obtain os1 ob os2 resourceMap allObjects where
      lo: "ListObjects r (listRequest gv resource ns sel) = Inr (os1 @ ob # os2)"
      and op: "GetResources_objects r sel ns os1 st2 = Inr (resourceMap, allObjects)"
      and obf: "(\<exists>t. ob = TypedObject t \<and> e = ErrorCasting ob)
                 \<or> (\<exists>u err. ob = UnstructuredObject u
                        \<and> objectToBeCollected r sel resourceMap u ns = Inl err
                        \<and> e = ErrorProcessingObject u err)"
      by (elim exE conjE)
    from obf have "GetResources_objects r sel ns [ob] (resourceMap, allObjects) = Inl e"
      by auto
    from GetResources_namespaces_first_failing_object [OF nd np lo op this]
    show ?thesis .
  qed
qed

lemma GetResources_group_error_iff:
  "GetResources_group r sel namespaces apiGroup all1 = Inl e \<longleftrightarrow>
     (ParseGroupVersion (GroupVersion apiGroup) = Inl e
      \<or> (\<exists>gv rs1 resource rs2 st1.
            ParseGroupVersion (GroupVersion apiGroup) = Inr gv
            \<and> gvGroup gv \<noteq> ''extensions''
            \<and> APIResources apiGroup = rs1 @ resource # rs2
            \<and> GetResources_resources r sel namespaces gv rs1 (fmempty, all1) = Inr st1
            \<and> resourceToBeCollected resource
            \<and> GetResources_namespaces r sel gv resource namespaces st1 = Inl e))"
proof
  assume gf: "GetResources_group r sel namespaces apiGroup all1 = Inl e"
  from GetResources_group_failure_cases [OF gf]
  show "(ParseGroupVersion (GroupVersion apiGroup) = Inl e
      \<or> (\<exists>gv rs1 resource rs2 st1.
            ParseGroupVersion (GroupVersion apiGroup) = Inr gv
            \<and> gvGroup gv \<noteq> ''extensions''
            \<and> APIResources apiGroup = rs1 @ resource # rs2
            \<and> GetResources_resources r sel namespaces gv rs1 (fmempty, all1) = Inr st1
            \<and> resourceToBeCollected resource
            \<and> GetResources_namespaces r sel gv resource namespaces st1 = Inl e))"
  proof
    assume "ParseGroupVersion (GroupVersion apiGroup) = Inl e"
    then show ?thesis by (rule disjI1)
  next
    assume "\<exists>gv. ParseGroupVersion (GroupVersion apiGroup) = Inr gv
            \<and> gvGroup gv \<noteq> ''extensions''
            \<and> GetResources_resources r sel namespaces gv (APIResources apiGroup)
                 (fmempty, all1) = Inl e"
    then obtain gv where
      pg: "ParseGroupVersion (GroupVersion apiGroup) = Inr gv"
      and ne: "gvGroup gv \<noteq> ''extensions''"
      and rf: "GetResources_resources r sel namespaces gv (APIResources apiGroup)
                 (fmempty, all1) = Inl e"
      by blast
    from GetResources_resources_first_failure [OF rf] obtain rs1 resource rs2 st1 where
      "APIResources apiGroup = rs1 @ resource # rs2"
      "GetResources_resources r sel namespaces gv rs1 (fmempty, all1) = Inr st1"
      "resourceToBeCollected resource"
      "GetResources_namespaces r sel gv resource namespaces st1 = Inl e"
      by blast
    with pg ne show ?thesis
      by (intro disjI2 exI [of _ gv] exI [of _ rs1] exI [of _ resource] exI [of _ rs2]
          exI [of _ st1] conjI)
  qed
next
  assume "(ParseGroupVersion (GroupVersion apiGroup) = Inl e
      \<or> (\<exists>gv rs1 resource rs2 st1.
            ParseGroupVersion (GroupVersion apiGroup) = Inr gv
            \<and> gvGroup gv \<noteq> ''extensions''
            \<and> APIResources apiGroup = rs1 @ resource # rs2
            \<and> GetResources_resources r sel namespaces gv rs1 (fmempty, all1) = Inr st1
            \<and> resourceToBeCollected resource
            \<and> GetResources_namespaces r sel gv resource namespaces st1 = Inl e))"
  then show "GetResources_group r sel namespaces apiGroup all1 = Inl e"
  proof
    assume "ParseGroupVersion (GroupVersion apiGroup) = Inl e"
    then show ?thesis by (simp add: GetResources_group_def)
  next
    assume "\<exists>gv rs1 resource rs2 st1.
            ParseGroupVersion (GroupVersion apiGroup) = Inr gv
            \<and> gvGroup gv \<noteq> ''extensions''
            \<and> APIResources apiGroup = rs1 @ resource # rs2
            \<and> GetResources_resources r sel namespaces gv rs1 (fmempty, all1) = Inr st1
            \<and> resourceToBeCollected resource
            \<and> GetResources_namespaces r sel gv resource namespaces st1 = Inl e"
    then obtain gv rs1 resource rs2 st1 where
      pg: "ParseGroupVersion (GroupVersion apiGroup) = Inr gv"
      and ne: "gvGroup gv \<noteq> ''extensions''"
      and rd: "APIResources apiGroup = rs1 @ resource # rs2"
      and rp: "GetResources_resources r sel namespaces gv rs1 (fmempty, all1) = Inr st1"
      and rc: "resourceToBeCollected resource"
      and nf: "GetResources_namespaces r sel gv resource namespaces st1 = Inl e"
      by (elim exE conjE)
    from GetResources_group_first_failing_resource [OF pg ne rd rp rc nf]
    show ?thesis .
  qed
qed

lemma GetResources_error_first_group_iff:
  "GetResources r namespaces sel = Inl e \<longleftrightarrow>
     (Refresh r = Some e
      \<or> Refresh r = None
        \<and> (\<exists>gs1 apiGroup gs2 all1.
              Resources r = gs1 @ apiGroup # gs2
              \<and> GetResources_groups r sel namespaces gs1 [] = Inr all1
              \<and> GetResources_group r sel namespaces apiGroup all1 = Inl e))"
proof
  assume l: "GetResources r namespaces sel = Inl e"
  show "(Refresh r = Some e
      \<or> Refresh r = None
        \<and> (\<exists>gs1 apiGroup gs2 all1.
              Resources r = gs1 @ apiGroup # gs2
              \<and> GetResources_groups r sel namespaces gs1 [] = Inr all1
              \<and> GetResources_group r sel namespaces apiGroup all1 = Inl e))"
  proof (cases "Refresh r")
    case (Some err)
    with l show ?thesis by (simp add: GetResources_def)
  next
    case None
    with l have "GetResources_groups r sel namespaces (Resources r) [] = Inl e"
      by (simp add: GetResources_def)
    from GetResources_groups_first_failure [OF this] None show ?thesis
      by blast
  qed
next
  assume "(Refresh r = Some e
      \<or> Refresh r = None
        \<and> (\<exists>gs1 apiGroup gs2 all1.
              Resources r = gs1 @ apiGroup # gs2
              \<and> GetResources_groups r sel namespaces gs1 [] = Inr all1
              \<and> GetResources_group r sel namespaces apiGroup all1 = Inl e))"
  then show "GetResources r namespaces sel = Inl e"
  proof
    assume "Refresh r = Some e"
    then show ?thesis by (simp add: GetResources_def)
  next
    assume "Refresh r = None
        \<and> (\<exists>gs1 apiGroup gs2 all1.
              Resources r = gs1 @ apiGroup # gs2
              \<and> GetResources_groups r sel namespaces gs1 [] = Inr all1
              \<and> GetResources_group r sel namespaces apiGroup all1 = Inl e)"
    then show ?thesis
      using GetResources_first_failing_group by blast
  qed
qed

lemma GetResources_error_iff:
  "GetResources r namespaces sel = Inl e \<longleftrightarrow>
     (Refresh r = Some e
      \<or> Refresh r = None
        \<and> (\<exists>gs1 apiGroup gs2 all1.
              Resources r = gs1 @ apiGroup # gs2
              \<and> GetResources_groups r sel namespaces gs1 [] = Inr all1
              \<and> (ParseGroupVersion (GroupVersion apiGroup) = Inl e
      \<or> (\<exists>gv rs1 resource rs2 st1.
            ParseGroupVersion (GroupVersion apiGroup) = Inr gv
            \<and> gvGroup gv \<noteq> ''extensions''
            \<and> APIResources apiGroup = rs1 @ resource # rs2
            \<and> GetResources_resources r sel namespaces gv rs1 (fmempty, all1) = Inr st1
            \<and> resourceToBeCollected resource
            \<and> (\<exists>ns1 ns ns2 st2.
        namespaces = ns1 @ ns # ns2
        \<and> GetResources_namespaces r sel gv resource ns1 st1 = Inr st2
        \<and> (ListObjects r (listRequest gv resource ns sel) = Inl e
             \<or> (\<exists>os1 ob os2 resourceMap allObjects.
            ListObjects r (listRequest gv resource ns sel) = Inr (os1 @ ob # os2)
            \<and> GetResources_objects r sel ns os1 st2 = Inr (resourceMap, allObjects)
            \<and> ((\<exists>t. ob = TypedObject t \<and> e = ErrorCasting ob)
                 \<or> (\<exists>u err. ob = UnstructuredObject u
                        \<and> objectToBeCollected r sel resourceMap u ns = Inl err
                        \<and> e = ErrorProcessingObject u err)))))))))"
  unfolding GetResources_error_first_group_iff GetResources_group_error_iff
    GetResources_namespaces_error_iff
  by (rule refl)

text \<open>
  C6. \<open>GetResources\<close> returns either an error or objects, never both, and it ends at the
  first failure:

  \<^item> a failed discovery refresh is returned as it is;

  \<^item> \<open>GetResources\<close> returns the error \<open>e\<close> exactly when the refresh fails with \<open>e\<close>, or
    the refresh succeeds and \<open>e\<close> is the error of the first failing step in the order of
    the iteration: the groups \<open>gs1\<close> before the failing group have been processed without
    error, and either the group/version of the group does not parse (error \<open>e\<close>), or, in
    a group that is not \<open>extensions\<close>, the resources \<open>rs1\<close> before a resource to be
    collected and the namespaces \<open>ns1\<close> before a namespace have been processed without
    error and then either the list call fails with \<open>e\<close>, or, after the listed objects
    \<open>os1\<close> have been processed without error, the next object is not unstructured
    (\<open>e\<close> is the cast error) or the inclusion predicate fails on it with the seen-set of
    that moment (\<open>e\<close> wraps the predicate's error). What follows the failing step
    (\<open>gs2\<close>, \<open>rs2\<close>, \<open>ns2\<close>, \<open>os2\<close>) plays no part, so nothing is tried again or
    carried on with, and the objects accumulated before are not returned;

  \<^item> hence a returned error is that of a failing step of some group;

  \<^item> and when \<open>GetResources\<close> returns objects, then nothing has failed: the refresh
    succeeded, the group/version of every group parsed, and for every group but
    \<open>extensions\<close>, every resource to be collected and every requested namespace, the
    list call succeeded, every listed object was unstructured, and the inclusion predicate
    returned no error on it unless the object was skipped because its uid had been
    collected already (its uid is then among those of the result).
\<close>

theorem GetResources_fail_fast:
  "(Refresh r = Some err \<longrightarrow> GetResources r namespaces labelSelectors = Inl err)
   \<and> (GetResources r namespaces labelSelectors = Inl e \<longleftrightarrow>
     (Refresh r = Some e
      \<or> Refresh r = None
        \<and> (\<exists>gs1 apiGroup gs2 all1.
              Resources r = gs1 @ apiGroup # gs2
              \<and> GetResources_groups r labelSelectors namespaces gs1 [] = Inr all1
              \<and> (ParseGroupVersion (GroupVersion apiGroup) = Inl e
      \<or> (\<exists>gv rs1 resource rs2 st1.
            ParseGroupVersion (GroupVersion apiGroup) = Inr gv
            \<and> gvGroup gv \<noteq> ''extensions''
            \<and> APIResources apiGroup = rs1 @ resource # rs2
            \<and> GetResources_resources r labelSelectors namespaces gv rs1 (fmempty, all1) = Inr st1
            \<and> resourceToBeCollected resource
            \<and> (\<exists>ns1 ns ns2 st2.
        namespaces = ns1 @ ns # ns2
        \<and> GetResources_namespaces r labelSelectors gv resource ns1 st1 = Inr st2
        \<and> (ListObjects r (listRequest gv resource ns labelSelectors) = Inl e
             \<or> (\<exists>os1 ob os2 resourceMap allObjects.
            ListObjects r (listRequest gv resource ns labelSelectors) = Inr (os1 @ ob # os2)
            \<and> GetResources_objects r labelSelectors ns os1 st2 = Inr (resourceMap, allObjects)
            \<and> ((\<exists>t. ob = TypedObject t \<and> e = ErrorCasting ob)
                 \<or> (\<exists>u err. ob = UnstructuredObject u
                        \<and> objectToBeCollected r labelSelectors resourceMap u ns = Inl err
                        \<and> e = ErrorProcessingObject u err))))))))))
   \<and> (GetResources r namespaces labelSelectors = Inl e \<longrightarrow>
        Refresh r = Some e
        \<or> list_ex (group_failure r labelSelectors namespaces e) (Resources r))
   \<and> (GetResources r namespaces labelSelectors = Inr result \<longrightarrow>
        Refresh r = None
        \<and> (\<forall>apiGroup \<in> set (Resources r).
             \<exists>gv. ParseGroupVersion (GroupVersion apiGroup) = Inr gv
               \<and> (gvGroup gv \<noteq> ''extensions'' \<longrightarrow>
                    (\<forall>resource \<in> set (APIResources apiGroup).
                       resourceToBeCollected resource \<longrightarrow>
                         (\<forall>ns \<in> set namespaces.
                            \<exists>objects.
                              ListObjects r (listRequest gv resource ns labelSelectors)
                                = Inr objects
                              \<and> (\<forall>ob \<in> set objects.
                                   \<exists>u. ob = UnstructuredObject u
                                     \<and> ((\<exists>collect. objectToBeCollected r labelSelectors
                                                       fmempty u ns = Inr collect)
                                          \<or> GetUID u \<in> GetUID ` set result)))))))"
proof (intro conjI)
  show "Refresh r = Some err \<longrightarrow> GetResources r namespaces labelSelectors = Inl err"
    by (simp add: GetResources_def)
next
  show "GetResources r namespaces labelSelectors = Inl e \<longleftrightarrow>
     (Refresh r = Some e
      \<or> Refresh r = None
        \<and> (\<exists>gs1 apiGroup gs2 all1.
              Resources r = gs1 @ apiGroup # gs2
              \<and> GetResources_groups r labelSelectors namespaces gs1 [] = Inr all1
              \<and> (ParseGroupVersion (GroupVersion apiGroup) = Inl e
      \<or> (\<exists>gv rs1 resource rs2 st1.
            ParseGroupVersion (GroupVersion apiGroup) = Inr gv
            \<and> gvGroup gv \<noteq> ''extensions''
            \<and> APIResources apiGroup = rs1 @ resource # rs2
            \<and> GetResources_resources r labelSelectors namespaces gv rs1 (fmempty, all1) = Inr st1
            \<and> resourceToBeCollected resource
            \<and> (\<exists>ns1 ns ns2 st2.
        namespaces = ns1 @ ns # ns2
        \<and> GetResources_namespaces r labelSelectors gv resource ns1 st1 = Inr st2
        \<and> (ListObjects r (listRequest gv resource ns labelSelectors) = Inl e
             \<or> (\<exists>os1 ob os2 resourceMap allObjects.
            ListObjects r (listRequest gv resource ns labelSelectors) = Inr (os1 @ ob # os2)
            \<and> GetResources_objects r labelSelectors ns os1 st2 = Inr (resourceMap, allObjects)
            \<and> ((\<exists>t. ob = TypedObject t \<and> e = ErrorCasting ob)
                 \<or> (\<exists>u err. ob = UnstructuredObject u
                        \<and> objectToBeCollected r labelSelectors resourceMap u ns = Inl err
                        \<and> e = ErrorProcessingObject u err)))))))))"
    by (rule GetResources_error_iff)
next
  show "GetResources r namespaces labelSelectors = Inl e \<longrightarrow>
        Refresh r = Some e
        \<or> list_ex (group_failure r labelSelectors namespaces e) (Resources r)"
    using GetResources_error by blast
next
  show "GetResources r namespaces labelSelectors = Inr result \<longrightarrow>
        Refresh r = None
        \<and> (\<forall>apiGroup \<in> set (Resources r).
             \<exists>gv. ParseGroupVersion (GroupVersion apiGroup) = Inr gv
               \<and> (gvGroup gv \<noteq> ''extensions'' \<longrightarrow>
                    (\<forall>resource \<in> set (APIResources apiGroup).
                       resourceToBeCollected resource \<longrightarrow>
                         (\<forall>ns \<in> set namespaces.
                            \<exists>objects.
                              ListObjects r (listRequest gv resource ns labelSelectors)
                                = Inr objects
                              \<and> (\<forall>ob \<in> set objects.
                                   \<exists>u. ob = UnstructuredObject u
                                     \<and> ((\<exists>collect. objectToBeCollected r labelSelectors
                                                       fmempty u ns = Inr collect)
                                          \<or> GetUID u \<in> GetUID ` set result))))))"
  proof (intro impI conjI)
    assume a: "GetResources r namespaces labelSelectors = Inr result"
    then show n: "Refresh r = None"
      by (simp add: GetResources_def split: option.splits)
    with a have "GetResources_groups r labelSelectors namespaces (Resources r) [] = Inr result"
      by (simp add: GetResources_def)
    from GetResources_groups_processed [OF this]
    show "\<forall>apiGroup \<in> set (Resources r).
             \<exists>gv. ParseGroupVersion (GroupVersion apiGroup) = Inr gv
               \<and> (gvGroup gv \<noteq> ''extensions'' \<longrightarrow>
                    (\<forall>resource \<in> set (APIResources apiGroup).
                       resourceToBeCollected resource \<longrightarrow>
                         (\<forall>ns \<in> set namespaces.
                            \<exists>objects.
                              ListObjects r (listRequest gv resource ns labelSelectors)
                                = Inr objects
                              \<and> (\<forall>ob \<in> set objects.
                                   \<exists>u. ob = UnstructuredObject u
                                     \<and> ((\<exists>collect. objectToBeCollected r labelSelectors
                                                       fmempty u ns = Inr collect)
                                          \<or> GetUID u \<in> GetUID ` set result)))))"
      by (simp add: group_processed_def listed_and_processed_def processed_def)
  qed
qed

theorem GetResources_fail_fast_witness:
  "Refresh example_unreachable = Some (CollaboratorError ''discovery unreachable'')
   \<and> GetResources example_unreachable [''ns1'', ''ns2''] fmempty
        = Inl (CollaboratorError ''discovery unreachable'')
   \<and> ListObjects example_two_failures
        (listRequest \<lparr>gvGroup = [], gvVersion = ''v1''\<rparr>
           (APIResources (Resources example_two_failures ! 0) ! 3) ''ns1'' fmempty)
        = Inl (CollaboratorError ''too many requests'')
   \<and> ListObjects example_two_failures
        (listRequest \<lparr>gvGroup = ''rbac.authorization.k8s.io'', gvVersion = ''v1''\<rparr>
           (APIResources (Resources example_two_failures ! 2) ! 0) ''ns1'' fmempty)
        = Inl (CollaboratorError ''forbidden'')
   \<and> GetResources example_two_failures [''ns1'', ''ns2''] fmempty
        = Inl (CollaboratorError ''too many requests'')
   \<and> GetResources example_cluster [''ns1'', ''ns2''] fmempty
        = Inr [example_pvc_object, example_pv_object, example_service, example_crb_object]
   \<and> Refresh example_cluster = None"
proof -
  let ?r = example_two_failures
  let ?g = "Resources example_two_failures ! 0"
  let ?gv = "\<lparr>gvGroup = [], gvVersion = ''v1''\<rparr>"
  let ?res = "APIResources (Resources example_two_failures ! 0) ! 3"
  let ?st = "(fmupd ''uid-pv'' True (fmupd ''uid-pvc'' True fmempty),
              [example_pvc_object, example_pv_object])"
  let ?e = "CollaboratorError ''too many requests''"
  have f: "Refresh example_unreachable = Some (CollaboratorError ''discovery unreachable'')"
    by (simp add: example_unreachable_def)
  have a: "GetResources example_cluster [''ns1'', ''ns2''] fmempty
     = Inr [example_pvc_object, example_pv_object, example_service, example_crb_object]"
    by code_simp
  have rn: "Refresh ?r = None"
    by (simp add: example_two_failures_def example_cluster_def)
  have gd: "Resources ?r = [] @ ?g # tl (Resources ?r)"
    by (simp add: example_two_failures_def example_cluster_def)
  have gp: "GetResources_groups ?r fmempty [''ns1'', ''ns2''] [] [] = Inr []"
    by simp
  have pg: "ParseGroupVersion (GroupVersion ?g) = Inr ?gv"
    by (simp add: example_two_failures_def example_cluster_def ParseGroupVersion_def)
  have ne: "gvGroup ?gv \<noteq> ''extensions''"
    by simp
  have rd: "APIResources ?g = take 3 (APIResources ?g) @ ?res # []"
    by (simp add: example_two_failures_def example_cluster_def)
  have rp: "GetResources_resources ?r fmempty [''ns1'', ''ns2''] ?gv (take 3 (APIResources ?g))
              (fmempty, []) = Inr ?st"
    by code_simp
  have rc: "resourceToBeCollected ?res"
    by code_simp
  have nd: "[''ns1'', ''ns2''] = [] @ ''ns1'' # [''ns2'']"
    by simp
  have np: "GetResources_namespaces ?r fmempty ?gv ?res [] ?st = Inr ?st"
    by simp
  have lf: "ListObjects ?r (listRequest ?gv ?res ''ns1'' fmempty) = Inl ?e"
    by code_simp
  have l2: "ListObjects ?r
        (listRequest \<lparr>gvGroup = ''rbac.authorization.k8s.io'', gvVersion = ''v1''\<rparr>
           (APIResources (Resources ?r ! 2) ! 0) ''ns1'' fmempty)
        = Inl (CollaboratorError ''forbidden'')"
    by code_simp
  have t: "GetResources ?r [''ns1'', ''ns2''] fmempty = Inl ?e"
    apply (rule GetResources_fail_fast [THEN conjunct2, THEN conjunct1, THEN iffD2])
    apply (rule disjI2, rule conjI, rule rn)
    apply (rule exI [of _ "[]"], rule exI [of _ ?g], rule exI [of _ "tl (Resources ?r)"],
        rule exI [of _ "[]"])
    apply (intro conjI, rule gd, rule gp, rule disjI2)
    apply (rule exI [of _ ?gv], rule exI [of _ "take 3 (APIResources ?g)"],
        rule exI [of _ ?res], rule exI [of _ "[]"], rule exI [of _ ?st])
    apply (intro conjI, rule pg, rule ne, rule rd, rule rp, rule rc)
    apply (rule exI [of _ "[]"], rule exI [of _ "''ns1''"], rule exI [of _ "[''ns2'']"],
        rule exI [of _ ?st])
    apply (intro conjI, rule nd, rule np, rule disjI1, rule lf)
    done
  from GetResources_fail_fast [of example_unreachable "CollaboratorError ''discovery unreachable''"
      "[''ns1'', ''ns2'']" fmempty, THEN conjunct1] f
  have u: "GetResources example_unreachable [''ns1'', ''ns2''] fmempty
        = Inl (CollaboratorError ''discovery unreachable'')"
    by blast
  from GetResources_fail_fast [of example_cluster _ "[''ns1'', ''ns2'']" fmempty _
      "[example_pvc_object, example_pv_object, example_service, example_crb_object]",
      THEN conjunct2, THEN conjunct2, THEN conjunct2] a
  have n: "Refresh example_cluster = None"
    by blast
  from f u lf l2 t a n show ?thesis
    by (intro conjI)
qed

lemma objectToBeCollected_ListObjects_update:
  "objectToBeCollected (r\<lparr>ListObjects := L\<rparr>) sel resourceMap u ns
     = objectToBeCollected r sel resourceMap u ns"
  by (simp add: objectToBeCollected_def cong: sum.case_cong if_cong)

lemma GetResources_objects_ListObjects_update:
  "GetResources_objects (r\<lparr>ListObjects := L\<rparr>) sel ns objects st
     = GetResources_objects r sel ns objects st"
proof (induction objects arbitrary: st)
  case Nil
  show ?case by simp
next
  case (Cons ob objects)
  obtain resourceMap allObjects where st: "st = (resourceMap, allObjects)"
    by (cases st)
  show ?case
    unfolding st
    by (simp add: objectToBeCollected_ListObjects_update Cons.IH
        split: runtime_object.splits sum.splits)
qed

lemma GetResources_namespaces_ListObjects_update:
  assumes "\<forall>ns \<in> set namespaces.
             L (listRequest gv resource ns sel) = ListObjects r (listRequest gv resource ns sel)"
  shows "GetResources_namespaces (r\<lparr>ListObjects := L\<rparr>) sel gv resource namespaces st
     = GetResources_namespaces r sel gv resource namespaces st"
  using assms
proof (induction namespaces arbitrary: st)
  case Nil
  show ?case by simp
next
  case (Cons ns namespaces)
  then have "L (listRequest gv resource ns sel) = ListObjects r (listRequest gv resource ns sel)"
    by simp
  moreover from Cons have "\<And>st. GetResources_namespaces (r\<lparr>ListObjects := L\<rparr>) sel gv resource namespaces st
     = GetResources_namespaces r sel gv resource namespaces st"
    by simp
  ultimately show ?case
    by (simp add: GetResources_objects_ListObjects_update split: sum.splits)
qed

lemma GetResources_resources_ListObjects_update:
  assumes "\<forall>resource \<in> set resources. resourceToBeCollected resource \<longrightarrow>
             (\<forall>ns \<in> set namespaces.
                L (listRequest gv resource ns sel)
                  = ListObjects r (listRequest gv resource ns sel))"
  shows "GetResources_resources (r\<lparr>ListObjects := L\<rparr>) sel namespaces gv resources st
     = GetResources_resources r sel namespaces gv resources st"
  using assms
proof (induction resources arbitrary: st)
  case Nil
  show ?case by simp
next
  case (Cons resource resources)
  then have tail: "\<And>st. GetResources_resources (r\<lparr>ListObjects := L\<rparr>) sel namespaces gv resources st
     = GetResources_resources r sel namespaces gv resources st"
    by simp
  show ?case
  proof (cases "resourceToBeCollected resource")
    case False
    with tail show ?thesis by simp
  next
    case True
    with Cons.prems have "\<forall>ns \<in> set namespaces.
             L (listRequest gv resource ns sel) = ListObjects r (listRequest gv resource ns sel)"
      by simp
    from GetResources_namespaces_ListObjects_update [OF this] tail True show ?thesis
      by (simp split: sum.splits)
  qed
qed

lemma GetResources_group_ListObjects_update:
  assumes "\<forall>gv. ParseGroupVersion (GroupVersion apiGroup) = Inr gv \<longrightarrow>
             gvGroup gv \<noteq> ''extensions'' \<longrightarrow>
             (\<forall>resource \<in> set (APIResources apiGroup). resourceToBeCollected resource \<longrightarrow>
                (\<forall>ns \<in> set namespaces.
                   L (listRequest gv resource ns sel)
                     = ListObjects r (listRequest gv resource ns sel)))"
  shows "GetResources_group (r\<lparr>ListObjects := L\<rparr>) sel namespaces apiGroup allObjects
     = GetResources_group r sel namespaces apiGroup allObjects"
proof (cases "ParseGroupVersion (GroupVersion apiGroup)")
  case (Inl err)
  then show ?thesis by (simp add: GetResources_group_def)
next
  case (Inr gv)
  show ?thesis
  proof (cases "gvGroup gv = ''extensions''")
    case True
    with Inr show ?thesis by (simp add: GetResources_group_def)
  next
    case False
    with assms Inr have "\<forall>resource \<in> set (APIResources apiGroup). resourceToBeCollected resource \<longrightarrow>
                (\<forall>ns \<in> set namespaces.
                   L (listRequest gv resource ns sel)
                     = ListObjects r (listRequest gv resource ns sel))"
      by blast
    from GetResources_resources_ListObjects_update [OF this] Inr False show ?thesis
      by (simp add: GetResources_group_def)
  qed
qed

lemma GetResources_groups_ListObjects_update:
  assumes "\<forall>apiGroup \<in> set groups.
           \<forall>gv. ParseGroupVersion (GroupVersion apiGroup) = Inr gv \<longrightarrow>
             gvGroup gv \<noteq> ''extensions'' \<longrightarrow>
             (\<forall>resource \<in> set (APIResources apiGroup). resourceToBeCollected resource \<longrightarrow>
                (\<forall>ns \<in> set namespaces.
                   L (listRequest gv resource ns sel)
                     = ListObjects r (listRequest gv resource ns sel)))"
  shows "GetResources_groups (r\<lparr>ListObjects := L\<rparr>) sel namespaces groups allObjects
     = GetResources_groups r sel namespaces groups allObjects"
  using assms
proof (induction groups arbitrary: allObjects)
  case Nil
  show ?case by simp
next
  case (Cons apiGroup groups)
  then have tail: "\<And>allObjects. GetResources_groups (r\<lparr>ListObjects := L\<rparr>) sel namespaces groups allObjects
     = GetResources_groups r sel namespaces groups allObjects"
    by simp
  from Cons.prems have "\<forall>gv. ParseGroupVersion (GroupVersion apiGroup) = Inr gv \<longrightarrow>
             gvGroup gv \<noteq> ''extensions'' \<longrightarrow>
             (\<forall>resource \<in> set (APIResources apiGroup). resourceToBeCollected resource \<longrightarrow>
                (\<forall>ns \<in> set namespaces.
                   L (listRequest gv resource ns sel)
                     = ListObjects r (listRequest gv resource ns sel)))"
    by simp
  from GetResources_group_ListObjects_update [OF this] tail show ?case
    by (simp split: sum.splits)
qed

text \<open>
  C9. \<open>GetResources\<close> consults the lister only through the list calls of its
  innermost iteration (every group but \<open>extensions\<close>, every resource to be collected,
  every requested namespace), and the label selector of such a call is the empty string
  for a resource of kind \<open>PersistentVolume\<close> and the formatted requested selector for a
  resource of any other kind: a lister that answers exactly those requests as the
  cluster's own lister does gives the same result, whatever it answers to any other
  request, such as one for volumes with the requested selector or one for another kind
  without it.
\<close>

theorem GetResources_list_selector:
  assumes "\<forall>apiGroup \<in> set (Resources r).
     \<forall>gv. ParseGroupVersion (GroupVersion apiGroup) = Inr gv \<longrightarrow>
       gvGroup gv \<noteq> ''extensions'' \<longrightarrow>
       (\<forall>resource \<in> set (APIResources apiGroup). resourceToBeCollected resource \<longrightarrow>
          (\<forall>ns \<in> set namespaces.
             L \<lparr>reqGroupVersion = gv, reqResource = Name resource,
                reqNamespace = (if Namespaced resource then Some ns else None),
                LabelSelector = (if Kind resource = ''PersistentVolume'' then []
                                 else labelsString labelSelectors)\<rparr>
             = ListObjects r
               \<lparr>reqGroupVersion = gv, reqResource = Name resource,
                reqNamespace = (if Namespaced resource then Some ns else None),
                LabelSelector = (if Kind resource = ''PersistentVolume'' then []
                                 else labelsString labelSelectors)\<rparr>))"
  shows "GetResources (r\<lparr>ListObjects := L\<rparr>) namespaces labelSelectors
           = GetResources r namespaces labelSelectors"
proof -
  have eq: "listRequest gv resource ns labelSelectors =
     \<lparr>reqGroupVersion = gv, reqResource = Name resource,
                reqNamespace = (if Namespaced resource then Some ns else None),
                LabelSelector = (if Kind resource = ''PersistentVolume'' then []
                                 else labelsString labelSelectors)\<rparr>" for gv resource ns
    by (simp add: listRequest_def)
  from assms have "\<forall>apiGroup \<in> set (Resources r).
           \<forall>gv. ParseGroupVersion (GroupVersion apiGroup) = Inr gv \<longrightarrow>
             gvGroup gv \<noteq> ''extensions'' \<longrightarrow>
             (\<forall>resource \<in> set (APIResources apiGroup). resourceToBeCollected resource \<longrightarrow>
                (\<forall>ns \<in> set namespaces.
                   L (listRequest gv resource ns labelSelectors)
                     = ListObjects r (listRequest gv resource ns labelSelectors)))"
    unfolding eq .
  from GetResources_groups_ListObjects_update [OF this] show ?thesis
    by (simp add: GetResources_def split: option.splits)
qed

theorem GetResources_list_selector_witness:
  "GetResources (example_cluster\<lparr>ListObjects := example_strict_lister\<rparr>) [''ns1'', ''ns2'']
      (fmap_of_list [(''app'', ''db'')])
     = Inr [example_pvc_object, example_pv_object, example_service]
   \<and> example_strict_lister
        \<lparr>reqGroupVersion = \<lparr>gvGroup = [], gvVersion = ''v1''\<rparr>,
         reqResource = ''persistentvolumes'', reqNamespace = None,
         LabelSelector = ''app=db''\<rparr>
       = Inl (CollaboratorError ''unexpected selector'')
   \<and> example_strict_lister
        \<lparr>reqGroupVersion = \<lparr>gvGroup = [], gvVersion = ''v1''\<rparr>,
         reqResource = ''services'', reqNamespace = Some ''ns1'',
         LabelSelector = []\<rparr>
       = Inl (CollaboratorError ''unexpected selector'')"
proof -
  have l: "labelsString (fmap_of_list [(''app'', ''db'')]) = ''app=db''"
    by code_simp
  have h: "\<forall>apiGroup \<in> set (Resources example_cluster).
     \<forall>gv. ParseGroupVersion (GroupVersion apiGroup) = Inr gv \<longrightarrow>
       gvGroup gv \<noteq> ''extensions'' \<longrightarrow>
       (\<forall>resource \<in> set (APIResources apiGroup). resourceToBeCollected resource \<longrightarrow>
          (\<forall>ns \<in> set [''ns1'', ''ns2''].
             example_strict_lister \<lparr>reqGroupVersion = gv, reqResource = Name resource,
                reqNamespace = (if Namespaced resource then Some ns else None),
                LabelSelector = (if Kind resource = ''PersistentVolume'' then []
                                 else labelsString (fmap_of_list [(''app'', ''db'')]))\<rparr>
             = ListObjects example_cluster
               \<lparr>reqGroupVersion = gv, reqResource = Name resource,
                reqNamespace = (if Namespaced resource then Some ns else None),
                LabelSelector = (if Kind resource = ''PersistentVolume'' then []
                                 else labelsString (fmap_of_list [(''app'', ''db'')]))\<rparr>))"
    unfolding l
    by (simp add: example_strict_lister_def example_cluster_def)
  have a: "GetResources example_cluster [''ns1'', ''ns2''] (fmap_of_list [(''app'', ''db'')])
     = Inr [example_pvc_object, example_pv_object, example_service]"
    by code_simp
  have d: "example_strict_lister
        \<lparr>reqGroupVersion = \<lparr>gvGroup = [], gvVersion = ''v1''\<rparr>,
         reqResource = ''persistentvolumes'', reqNamespace = None,
         LabelSelector = ''app=db''\<rparr>
       = Inl (CollaboratorError ''unexpected selector'')"
    and e: "example_strict_lister
        \<lparr>reqGroupVersion = \<lparr>gvGroup = [], gvVersion = ''v1''\<rparr>,
         reqResource = ''services'', reqNamespace = Some ''ns1'',
         LabelSelector = []\<rparr>
       = Inl (CollaboratorError ''unexpected selector'')"
    by (simp_all add: example_strict_lister_def)
  from GetResources_list_selector [OF h] a d e show ?thesis
    by metis
qed

end
